theory Spec2Isabelle
  imports Main "HOL-Library.Multiset"
begin

section \<open>Text: characters, stripping and the two regular expressions\<close>

text \<open>
  A Python \<open>str\<close> is a sequence of code points. A \<^typ>\<open>char\<close> stands for one code point of
  the range 0..255 (the Latin-1 block of Unicode), so \<^typ>\<open>string\<close> covers every text made of
  such code points. The character classes below are the ones of CPython on that range.
\<close>

definition cp :: "char \<Rightarrow> nat" where
  "cp c = of_char c"

definition py_isdecimal :: "char \<Rightarrow> bool" where
  \<comment> \<open>\<open>str.isdecimal\<close>, and \<open>\d\<close> of \<open>re\<close> on a \<open>str\<close> pattern\<close>
  "py_isdecimal c = (48 \<le> cp c \<and> cp c \<le> 57)"

definition py_isdigit :: "char \<Rightarrow> bool" where
  \<comment> \<open>\<open>str.isdigit\<close>: the decimal digits and the superscripts U+00B2, U+00B3, U+00B9\<close>
  "py_isdigit c = (py_isdecimal c \<or> cp c = 178 \<or> cp c = 179 \<or> cp c = 185)"

definition py_isnumeric :: "char \<Rightarrow> bool" where
  \<comment> \<open>\<open>str.isnumeric\<close>: also the fractions U+00BC..U+00BE\<close>
  "py_isnumeric c = (py_isdigit c \<or> (188 \<le> cp c \<and> cp c \<le> 190))"

definition py_isalpha :: "char \<Rightarrow> bool" where
  "py_isalpha c =
     ((65 \<le> cp c \<and> cp c \<le> 90) \<or> (97 \<le> cp c \<and> cp c \<le> 122)
      \<or> cp c = 170 \<or> cp c = 181 \<or> cp c = 186
      \<or> (192 \<le> cp c \<and> cp c \<le> 214) \<or> (216 \<le> cp c \<and> cp c \<le> 246)
      \<or> (248 \<le> cp c \<and> cp c \<le> 255))"

definition re_word :: "char \<Rightarrow> bool" where
  \<comment> \<open>\<open>\w\<close> of \<open>re\<close>: alphanumeric or underscore\<close>
  "re_word c = (py_isalpha c \<or> py_isnumeric c \<or> c = CHR ''_'')"

definition py_isspace :: "char \<Rightarrow> bool" where
  \<comment> \<open>the characters \<open>str.strip()\<close> removes\<close>
  "py_isspace c =
     ((9 \<le> cp c \<and> cp c \<le> 13) \<or> (28 \<le> cp c \<and> cp c \<le> 32) \<or> cp c = 133 \<or> cp c = 160)"

definition py_strip :: "string \<Rightarrow> string" where
  "py_strip s = rev (dropWhile py_isspace (rev (dropWhile py_isspace s)))"

text \<open>
  \<open>re.search(r'(\d+\.?\d*)', text)\<close>, group 1. The leftmost match starts at the first decimal
  digit; the three greedy parts never have to give anything back, because nothing follows them.
\<close>

definition rating_match :: "string \<Rightarrow> string" where
  "rating_match s =
     (let whole = takeWhile py_isdecimal s; rest = dropWhile py_isdecimal s
      in case rest of
           c # frac \<Rightarrow> if c = CHR ''.'' then whole @ ''.'' @ takeWhile py_isdecimal frac else whole
         | [] \<Rightarrow> whole)"

definition re_search_rating :: "string \<Rightarrow> string option" where
  "re_search_rating s =
     (case dropWhile (\<lambda>c. \<not> py_isdecimal c) s of [] \<Rightarrow> None | t \<Rightarrow> Some (rating_match t))"

text \<open>
  \<open>re.search(r'\b(19\d{2}|20\d{2})\b', text)\<close>, the whole match. \<open>year_at\<close> is the pattern
  after its first \<open>\b\<close>, tried at the head of a suffix; the first \<open>\b\<close> holds when the
  character before is not a word character (the flag of \<open>year_scan\<close>).
\<close>

fun year_at :: "string \<Rightarrow> bool" where
  "year_at (a # b # c # d # rest) =
     (((a = CHR ''1'' \<and> b = CHR ''9'') \<or> (a = CHR ''2'' \<and> b = CHR ''0''))
      \<and> py_isdecimal c \<and> py_isdecimal d
      \<and> (case rest of [] \<Rightarrow> True | e # _ \<Rightarrow> \<not> re_word e))"
| "year_at _ = False"

fun year_scan :: "bool \<Rightarrow> string \<Rightarrow> string option" where
  "year_scan w [] = None"
| "year_scan w (c # cs) =
     (if \<not> w \<and> year_at (c # cs) then Some (take 4 (c # cs)) else year_scan (re_word c) cs)"

definition re_search_year :: "string \<Rightarrow> string option" where
  "re_search_year s = year_scan False s"


section \<open>The parsed document, as the scrapers query it\<close>

text \<open>
  Parsing is done by BeautifulSoup. An element is known by the text strings below it, in
  document order, and by its attributes; a document by the answers it gives to
  \<open>soup.select(selector)\<close> and to the \<open>find\<close> calls of the scripts.
\<close>

record element =
  strings :: "string list"
  attrs :: "(string \<times> string) list"

record box_item =
  label_elem :: "element option"
  value_elem :: "element option"

record detail_section =
  section_label :: "element option"
  country_links :: "element list"

record document =
  select :: "string \<Rightarrow> element list"
  find_tag :: "string \<Rightarrow> element option"
  find_class :: "string \<Rightarrow> string \<Rightarrow> element option"
  find_all_class :: "string \<Rightarrow> string \<Rightarrow> element list"
  box_office_section :: "box_item list option"
  detail_sections :: "detail_section list"
  director_section :: "element list option"

definition select_one :: "document \<Rightarrow> string \<Rightarrow> element option" where
  "select_one soup selector = (case select soup selector of [] \<Rightarrow> None | e # _ \<Rightarrow> Some e)"

definition get_text :: "element \<Rightarrow> string" where
  \<comment> \<open>\<open>elem.get_text()\<close> and \<open>elem.text\<close>\<close>
  "get_text e = concat (strings e)"

definition get_text_strip :: "element \<Rightarrow> string" where
  \<comment> \<open>\<open>elem.get_text(strip=True)\<close>: every string stripped, the empty ones left out\<close>
  "get_text_strip e = concat (filter (\<lambda>s. s \<noteq> []) (map py_strip (strings e)))"

definition get_attr :: "element \<Rightarrow> string \<Rightarrow> string \<Rightarrow> string" where
  \<comment> \<open>\<open>elem.get(name, default)\<close>\<close>
  "get_attr e name dflt = (case map_of (attrs e) name of None \<Rightarrow> dflt | Some v \<Rightarrow> v)"


section \<open>Field extraction (\<open>test_claude.py\<close>, \<open>ver4_Selenium_Based.py\<close>)\<close>

definition rating_selectors :: "string list" where
  \<open>rating_selectors =
     [''div[data-testid="hero-rating-bar__aggregate-rating__score"] span'',
      ''span.sc-bde20123-1'',
      ''div.sc-7ab21ed2-1'',
      ''span.sc-7ab21ed2-1'']\<close>

fun extract_rating_loop :: "document \<Rightarrow> string list \<Rightarrow> string" where
  "extract_rating_loop soup [] = ''N/A''"
| "extract_rating_loop soup (selector # rest) =
     (case select_one soup selector of
        None \<Rightarrow> extract_rating_loop soup rest
      | Some rating_elem \<Rightarrow>
          (case re_search_rating (py_strip (get_text rating_elem)) of
             None \<Rightarrow> extract_rating_loop soup rest
           | Some rating \<Rightarrow> rating))"

definition extract_rating :: "document \<Rightarrow> string" where
  "extract_rating soup = extract_rating_loop soup rating_selectors"

definition year_selectors :: "string list" where
  \<open>year_selectors =
     [''h1 + div div[data-testid="title-metadata"] ul li'',
      ''ul.sc-afe43def-1 > li:first-child'',
      ''div[data-testid="hero-title-block__metadata"] > ul > li'',
      ''span.sc-8c396aa2-2'',
      ''li.ipc-inline-list__item:first-child'']\<close>

definition year_from_title :: "document \<Rightarrow> string" where
  \<comment> \<open>the fallback after the loop: the year in the page title, else the sentinel\<close>
  "year_from_title soup =
     (case find_tag soup ''title'' of
        None \<Rightarrow> ''N/A''
      | Some title_elem \<Rightarrow>
          (case re_search_year (get_text title_elem) of None \<Rightarrow> ''N/A'' | Some y \<Rightarrow> y))"

fun extract_year_loop :: "document \<Rightarrow> string list \<Rightarrow> string" where
  "extract_year_loop soup [] = year_from_title soup"
| "extract_year_loop soup (selector # rest) =
     (case select_one soup selector of
        None \<Rightarrow> extract_year_loop soup rest
      | Some year_elem \<Rightarrow>
          (case re_search_year (get_text_strip year_elem) of
             None \<Rightarrow> extract_year_loop soup rest
           | Some y \<Rightarrow> y))"

definition extract_year :: "document \<Rightarrow> string" where
  "extract_year soup = extract_year_loop soup year_selectors"

text \<open>
  What one strategy yields on its own: the normalised value of the element it locates, if it
  locates one and the normalisation finds something. The loops above are compared with these.
\<close>

definition rating_strategy :: "document \<Rightarrow> string \<Rightarrow> string option" where
  "rating_strategy soup selector =
     (case select_one soup selector of
        None \<Rightarrow> None
      | Some e \<Rightarrow> re_search_rating (py_strip (get_text e)))"

definition year_strategy :: "document \<Rightarrow> string \<Rightarrow> string option" where
  "year_strategy soup selector =
     (case select_one soup selector of
        None \<Rightarrow> None
      | Some e \<Rightarrow> re_search_year (get_text_strip e))"

definition title_strategy :: "document \<Rightarrow> string option" where
  "title_strategy soup =
     (case find_tag soup ''title'' of None \<Rightarrow> None | Some e \<Rightarrow> re_search_year (get_text e))"


section \<open>Link discovery\<close>

text \<open>
  A Python \<open>set\<close> of strings is kept as a list without repetitions, in order of first
  insertion. The order in which Python iterates over a set is unspecified, so every statement
  about such a list goes through \<^const>\<open>set\<close>, \<^const>\<open>distinct\<close> or \<^const>\<open>length\<close>.
\<close>

definition set_add :: "'a \<Rightarrow> 'a list \<Rightarrow> 'a list" where
  \<comment> \<open>\<open>s.add(x)\<close>\<close>
  "set_add x xs = (if x \<in> set xs then xs else xs @ [x])"

definition py_startswith :: "string \<Rightarrow> string \<Rightarrow> bool" where
  "py_startswith s p = (take (length p) s = p)"

definition split_query :: "string \<Rightarrow> string" where
  \<comment> \<open>\<open>href.split('?')[0]\<close>\<close>
  "split_query href = takeWhile (\<lambda>c. c \<noteq> CHR ''?'') href"

definition link_selectors :: "string list" where
  \<comment> \<open>\<open>test_claude.py\<close>\<close>
  \<open>link_selectors =
     [''div.lister-item-content h3.lister-item-header a'',
      ''div.sc-afe43def-1 a.sc-afe43def-2'',
      ''h3.lister-item-header a'',
      ''div.lister-item a[href^="/title/"]'',
      ''a.lister-item-header-link'',
      ''a[href^="/title/tt"]'']\<close>

definition link_selectors_ver4 :: "string list" where
  \<comment> \<open>\<open>ver4_Selenium_Based.py\<close>\<close>
  \<open>link_selectors_ver4 =
     [''a[href^="/title/tt"]'',
      ''div.lister-item-content h3.lister-item-header a'',
      ''h3.lister-item-header a'',
      ''div.lister-item a[href^="/title/"]'',
      ''a.lister-item-header-link'']\<close>

definition add_movie_link :: "element \<Rightarrow> string list \<Rightarrow> string list" where
  \<comment> \<open>the body of \<open>for link in movie_title_links\<close>\<close>
  "add_movie_link link movie_links =
     (let href = get_attr link ''href'' []
      in if href \<noteq> [] \<and> py_startswith href ''/title/''
         then (let clean_href = split_query href;
                   full_url = ''https://www.imdb.com'' @ clean_href
               in set_add full_url movie_links)
         else movie_links)"

definition collect_links :: "element list \<Rightarrow> string list \<Rightarrow> string list" where
  "collect_links movie_title_links movie_links = fold add_movie_link movie_title_links movie_links"

fun extract_movie_links_loop :: "document \<Rightarrow> string list \<Rightarrow> string list \<Rightarrow> string list" where
  "extract_movie_links_loop soup [] movie_links = movie_links"
| "extract_movie_links_loop soup (selector # rest) movie_links =
     (let movie_title_links = select soup selector
      in if movie_title_links \<noteq> []
         then (let movie_links' = collect_links movie_title_links movie_links
               in if movie_links' \<noteq> [] then movie_links'
                  else extract_movie_links_loop soup rest movie_links')
         else extract_movie_links_loop soup rest movie_links)"

definition extract_movie_links :: "document \<Rightarrow> string list" where
  "extract_movie_links soup = extract_movie_links_loop soup link_selectors []"

definition extract_movie_links_ver4 :: "document \<Rightarrow> string list" where
  "extract_movie_links_ver4 soup = extract_movie_links_loop soup link_selectors_ver4 []"

text \<open>
  What one selector yields on its own, which anchors the loop body accepts, and the
  identifier it builds from an accepted one.
\<close>

definition selector_links :: "document \<Rightarrow> string \<Rightarrow> string list" where
  "selector_links soup selector = collect_links (select soup selector) []"

definition link_href :: "element \<Rightarrow> string" where
  \<comment> \<open>\<open>link.get('href', '')\<close>\<close>
  "link_href link = get_attr link ''href'' []"

definition accepted :: "element \<Rightarrow> bool" where
  \<comment> \<open>the test of the loop body: \<open>href and href.startswith('/title/')\<close>\<close>
  "accepted link = (link_href link \<noteq> [] \<and> py_startswith (link_href link) ''/title/'')"

definition canonical_link :: "string \<Rightarrow> string" where
  \<comment> \<open>the identifier the loop body builds from an accepted \<open>href\<close>\<close>
  "canonical_link href = ''https://www.imdb.com'' @ split_query href"

text \<open>
  \<open>extract_movie_links\<close> of \<open>ver3.py\<close> is not taken over. The first entry of its
  selector list is two string literals with no comma between them (lines 68 and 70), which
  Python joins into the one text
  \<open>a[href^="/title/tt"]div.lister-item-content h3.lister-item-header a\<close>: a tag name after an
  attribute test, which is not a selector. The first \<open>soup.select\<close> of the loop is given
  that text, so the function raises there, before any anchor is matched and for every document.
\<close>


section \<open>The detail fetcher\<close>

text \<open>
  What \<open>requests.get\<close> with \<open>raise_for_status\<close> and the parser make of one request: a
  parsed page, a \<open>requests.RequestException\<close> (network failure, timeout, error status), or
  an exception of another class. The network is given as the responses that successive
  requests for a URL would receive, numbered from 0.
\<close>

datatype response = Page document | Request_exception | Other_exception

datatype uncaught = Uncaught

type_synonym http = "string \<Rightarrow> nat \<Rightarrow> response"

record movie_data =
  title :: string
  year :: string
  genres :: "string list"
  imdb_rating :: string
  local_gross :: string
  worldwide_gross :: string
  budget :: string
  opening_weekend :: string
  url :: string
  country :: "string option"

definition genre_selectors :: "string list" where
  \<open>genre_selectors =
     [''div[data-testid="genres"] a'',
      ''span.ipc-chip__text'',
      ''div.sc-16ede01-0 a'',
      ''li.ipc-inline-list__item a'']\<close>

fun extract_genres_loop :: "document \<Rightarrow> string list \<Rightarrow> string list" where
  "extract_genres_loop soup [] = []"
| "extract_genres_loop soup (selector # rest) =
     (let genre_elems = select soup selector
      in if genre_elems \<noteq> []
         then (let genres = remdups (map (\<lambda>genre. py_strip (get_text genre)) genre_elems)
               in if genres \<noteq> [] then genres else extract_genres_loop soup rest)
         else extract_genres_loop soup rest)"

definition extract_genres :: "document \<Rightarrow> string list" where
  "extract_genres soup = extract_genres_loop soup genre_selectors"

fun py_contains :: "string \<Rightarrow> string \<Rightarrow> bool" where
  \<comment> \<open>\<open>sub in s\<close>\<close>
  "py_contains [] sub = (sub = [])"
| "py_contains (c # cs) sub = (py_startswith (c # cs) sub \<or> py_contains cs sub)"

definition box_office_item :: "box_item \<Rightarrow> movie_data \<Rightarrow> movie_data" where
  "box_office_item item movie =
     (case label_elem item of
        None \<Rightarrow> movie
      | Some le \<Rightarrow>
          (let label = py_strip (get_text le)
           in case value_elem item of
                None \<Rightarrow> movie
              | Some ve \<Rightarrow>
                  (let v = py_strip (get_text ve)
                   in if py_contains label ''Budget'' then movie\<lparr>budget := v\<rparr>
                      else if py_contains label ''Gross worldwide'' then movie\<lparr>worldwide_gross := v\<rparr>
                      else if py_contains label ''Opening weekend'' then movie\<lparr>opening_weekend := v\<rparr>
                      else if py_contains label ''Gross US & Canada'' then movie\<lparr>local_gross := v\<rparr>
                      else movie)))"

definition box_office :: "document \<Rightarrow> movie_data \<Rightarrow> movie_data" where
  "box_office soup movie =
     (case box_office_section soup of
        None \<Rightarrow> movie
      | Some list_items \<Rightarrow> fold box_office_item list_items movie)"

definition get_movie_details :: "http \<Rightarrow> string \<Rightarrow> uncaught + movie_data option" where
  \<comment> \<open>\<open>test_claude.py\<close>; \<open>ver4_Selenium_Based.py\<close> has the same body\<close>
  "get_movie_details get movie_url =
     (let unique_url = split_query movie_url
      in case get unique_url 0 of
           Request_exception \<Rightarrow> Inr None
         | Other_exception \<Rightarrow> Inl Uncaught
         | Page soup \<Rightarrow>
             (let t = (case find_tag soup ''h1'' of
                         Some title_elem \<Rightarrow> py_strip (get_text title_elem)
                       | None \<Rightarrow> ''Unknown'');
                  y = extract_year soup
              in if y = ''N/A'' then Inr None
                 else (let g = extract_genres soup;
                           r = extract_rating soup
                       in if r = ''N/A'' then Inr None
                          else Inr (Some (box_office soup
                                 \<lparr>title = t, year = y, genres = g, imdb_rating = r,
                                  local_gross = ''N/A'', worldwide_gross = ''N/A'',
                                  budget = ''N/A'', opening_weekend = ''N/A'',
                                  url = unique_url, country = None\<rparr>)))))"

subsection \<open>\<open>ver3.py\<close>\<close>

text \<open>
  The dictionary of \<open>ver3.py\<close> has keys that are set only on some paths; those are the
  optional fields.
\<close>

record movie_data_ver3 =
  v3_title :: string
  v3_year :: "string option"
  v3_genres :: "string list"
  v3_budget :: "string option"
  v3_worldwide_gross :: "string option"
  v3_opening_weekend :: "string option"
  v3_domestic_gross :: "string option"
  v3_imdb_rating :: string
  v3_vote_count :: string
  v3_runtime :: string
  v3_countries :: "string list"
  v3_directors :: "string list option"
  v3_url :: string

fun re_search_4digits :: "string \<Rightarrow> string option" where
  \<comment> \<open>\<open>re.search(r'\d{4}', text)\<close>\<close>
  "re_search_4digits [] = None"
| "re_search_4digits (c # cs) =
     (if 4 \<le> length (c # cs) \<and> list_all py_isdecimal (take 4 (c # cs))
      then Some (take 4 (c # cs)) else re_search_4digits cs)"

definition text_or :: "element option \<Rightarrow> string \<Rightarrow> string" where
  \<comment> \<open>\<open>elem.text.strip() if elem else default\<close>\<close>
  "text_or elem dflt = (case elem of None \<Rightarrow> dflt | Some e \<Rightarrow> py_strip (get_text e))"

definition box_office_item_ver3 :: "box_item \<Rightarrow> movie_data_ver3 \<Rightarrow> movie_data_ver3" where
  "box_office_item_ver3 item movie =
     (case label_elem item of
        None \<Rightarrow> movie
      | Some le \<Rightarrow>
          (let label = py_strip (get_text le)
           in case value_elem item of
                None \<Rightarrow> movie
              | Some ve \<Rightarrow>
                  (let v = py_strip (get_text ve)
                   in if py_contains label ''Budget'' then movie\<lparr>v3_budget := Some v\<rparr>
                      else if py_contains label ''Gross worldwide''
                        then movie\<lparr>v3_worldwide_gross := Some v\<rparr>
                      else if py_contains label ''Opening weekend''
                        then movie\<lparr>v3_opening_weekend := Some v\<rparr>
                      else if py_contains label ''Gross US & Canada''
                        then movie\<lparr>v3_domestic_gross := Some v\<rparr>
                      else movie)))"

definition countries_ver3 :: "document \<Rightarrow> string list" where
  "countries_ver3 soup =
     fold (\<lambda>sec countries.
             case section_label sec of
               None \<Rightarrow> countries
             | Some l \<Rightarrow>
                 if py_contains (get_text l) ''Countries of origin''
                 then map (\<lambda>c. py_strip (get_text c)) (country_links sec)
                 else countries)
          (detail_sections soup) []"

definition get_movie_details_ver3 :: "http \<Rightarrow> string \<Rightarrow> uncaught + movie_data_ver3 option" where
  "get_movie_details_ver3 get movie_url =
     (case get movie_url 0 of
        Request_exception \<Rightarrow> Inr None
      | Other_exception \<Rightarrow> Inl Uncaught
      | Page soup \<Rightarrow>
          (let movie =
                 \<lparr>v3_title = text_or (find_tag soup ''h1'') ''Unknown Title'',
                  v3_year =
                    (case find_class soup ''span'' ''sc-8c396aa2-2 jwaBvf'' of
                       None \<Rightarrow> None
                     | Some year_elem \<Rightarrow>
                         (case re_search_4digits (get_text year_elem) of
                            Some y \<Rightarrow> Some y
                          | None \<Rightarrow> Some ''Unknown'')),
                  v3_genres =
                    map (\<lambda>genre. py_strip (get_text genre))
                      (find_all_class soup ''a'' ''sc-16ede01-3 bYNgQ ipc-chip ipc-chip--on-baseAlt''),
                  v3_budget = None, v3_worldwide_gross = None,
                  v3_opening_weekend = None, v3_domestic_gross = None,
                  v3_imdb_rating =
                    text_or (find_class soup ''span'' ''sc-7ab21ed2-1 jGRxWM'') ''N/A'',
                  v3_vote_count =
                    text_or (find_class soup ''div'' ''sc-7ab21ed2-3 dPVcnq'') ''N/A'',
                  v3_runtime =
                    text_or (find_class soup ''div'' ''sc-80d4314-2 iJtmbR'') ''N/A'',
                  v3_countries = countries_ver3 soup,
                  v3_directors =
                    (case director_section soup of
                       None \<Rightarrow> None
                     | Some director_links \<Rightarrow>
                         Some (map (\<lambda>d. py_strip (get_text d)) director_links)),
                  v3_url = movie_url\<rparr>
           in Inr (Some (case box_office_section soup of
                           None \<Rightarrow> movie
                         | Some list_items \<Rightarrow> fold box_office_item_ver3 list_items movie))))"


section \<open>Pagination and the worker pool (\<open>scrape_country_films\<close> of \<open>test_claude.py\<close>)\<close>

text \<open>
  The listing responses are given by start index (the country code and the years are fixed
  for a run), the detail responses by URL. \<open>as_completed\<close> hands the futures back in the
  order they finish; that order is a parameter, applied to the submitted links.
  \<open>pages_scraped\<close> lists the pages for which the loop body was entered (the pages of the
  \<open>Scraping page ...\<close> log lines); \<open>aborted\<close> is set when an exception leaves the function.
\<close>

record web =
  search_results :: "int \<Rightarrow> nat \<Rightarrow> response"
  detail :: http

record run_state =
  all_movies :: "movie_data list"
  processed_urls :: "string list"
  pages_scraped :: "int list"
  aborted :: bool

definition get_imdb_search_results :: "web \<Rightarrow> int \<Rightarrow> uncaught + document option" where
  "get_imdb_search_results w start_index =
     (case search_results w start_index 0 of
        Page soup \<Rightarrow> Inr (Some soup)
      | Request_exception \<Rightarrow> Inr None
      | Other_exception \<Rightarrow> Inl Uncaught)"

definition collect_result :: "string \<Rightarrow> uncaught + movie_data option \<Rightarrow> movie_data list \<Rightarrow> movie_data list" where
  \<comment> \<open>the body of \<open>for future in as_completed(future_to_url)\<close>\<close>
  "collect_result country_name result movies =
     (case result of
        Inl _ \<Rightarrow> movies
      | Inr None \<Rightarrow> movies
      | Inr (Some movie) \<Rightarrow> movies @ [movie\<lparr>country := Some country_name\<rparr>])"

definition run_executor ::
  "http \<Rightarrow> (string list \<Rightarrow> string list) \<Rightarrow> string \<Rightarrow> string list \<Rightarrow> movie_data list \<Rightarrow> movie_data list" where
  "run_executor get as_completed country_name new_movie_links movies =
     fold (\<lambda>link. collect_result country_name (get_movie_details get link))
          (as_completed new_movie_links) movies"

fun scrape_pages ::
  "web \<Rightarrow> (string list \<Rightarrow> string list) \<Rightarrow> string \<Rightarrow> int list \<Rightarrow> run_state \<Rightarrow> run_state" where
  "scrape_pages w as_completed country_name [] st = st"
| "scrape_pages w as_completed country_name (page # rest) st =
     (let start_index = 1 + (page - 1) * 50;
          st1 = st\<lparr>pages_scraped := pages_scraped st @ [page]\<rparr>
      in case get_imdb_search_results w start_index of
           Inl _ \<Rightarrow> st1\<lparr>aborted := True\<rparr>
         | Inr None \<Rightarrow> st1
         | Inr (Some soup) \<Rightarrow>
             (let movie_links = extract_movie_links soup
              in if movie_links = [] then st1
                 else (let new_movie_links =
                             filter (\<lambda>link. split_query link \<notin> set (processed_urls st1)) movie_links;
                           processed =
                             fold (\<lambda>link. set_add (split_query link)) new_movie_links
                               (processed_urls st1);
                           movies =
                             run_executor (detail w) as_completed country_name new_movie_links
                               (all_movies st1)
                       in scrape_pages w as_completed country_name rest
                            (st1\<lparr>processed_urls := processed, all_movies := movies\<rparr>))))"

definition initial_state :: run_state where
  "initial_state = \<lparr>all_movies = [], processed_urls = [], pages_scraped = [], aborted = False\<rparr>"

definition scrape_country_films ::
  "web \<Rightarrow> (string list \<Rightarrow> string list) \<Rightarrow> string \<Rightarrow> int \<Rightarrow> run_state" where
  \<comment> \<open>up to the end of the page loop; the table is then handed to pandas\<close>
  "scrape_country_films w as_completed country_name max_pages =
     scrape_pages w as_completed country_name [1..max_pages] initial_state"

text \<open>
  The two things the statements below speak about: whether a page lets the loop go on, and
  the links a listing page yields.
\<close>

definition page_links :: "web \<Rightarrow> int \<Rightarrow> string list" where
  "page_links w page =
     (case get_imdb_search_results w (1 + (page - 1) * 50) of
        Inr (Some soup) \<Rightarrow> extract_movie_links soup
      | _ \<Rightarrow> [])"

definition page_continues :: "web \<Rightarrow> int \<Rightarrow> bool" where
  "page_continues w page = (page_links w page \<noteq> [])"

definition new_links :: "web \<Rightarrow> int \<Rightarrow> string list \<Rightarrow> string list" where
  \<comment> \<open>the links of a page that the accumulated set does not hold yet\<close>
  "new_links w page processed = filter (\<lambda>link. link \<notin> set processed) (page_links w page)"

definition detail_record :: "http \<Rightarrow> string \<Rightarrow> string \<Rightarrow> movie_data option" where
  \<comment> \<open>the row a dispatched link contributes, if its fetch yields a record\<close>
  "detail_record get country_name link =
     (case get_movie_details get link of
        Inr (Some movie) \<Rightarrow> Some (movie\<lparr>country := Some country_name\<rparr>)
      | _ \<Rightarrow> None)"


section \<open>The retried classification call (\<open>review_classifier.py\<close>)\<close>

text \<open>
  \<open>process_review\<close> is wrapped in tenacity's
  \<open>@retry(stop=stop_after_attempt(3), wait=wait_exponential(multiplier=1, min=4, max=10))\<close>:
  the body is called again after an exception, with a sleep in between, until a call returns
  or the third call has raised, when \<open>RetryError\<close> is raised.
\<close>

datatype generate_result = Generate_raises | Response_invalid | Response_valid "string list" "string list"

datatype 'a attempt = Raises | Returns 'a

datatype retry_error = RetryError

definition py_lower :: "string \<Rightarrow> string" where
  "py_lower s =
     map (\<lambda>c. if (65 \<le> cp c \<and> cp c \<le> 90) \<or> (192 \<le> cp c \<and> cp c \<le> 222 \<and> cp c \<noteq> 215)
               then char_of (cp c + 32) else c) s"

definition process_review_body ::
  "string \<Rightarrow> string option \<Rightarrow> generate_result \<Rightarrow> (string list \<times> string list) attempt" where
  \<comment> \<open>one call of the undecorated function; \<open>None\<close> is a missing cell (\<open>pd.isna\<close>)\<close>
  "process_review_body review_title content reply =
     (case content of
        None \<Rightarrow> Returns ([], [])
      | Some text \<Rightarrow>
          if py_lower (py_strip text) = ''n/a'' then Returns ([], [])
          else (case reply of
                  Generate_raises \<Rightarrow> Raises
                | Response_invalid \<Rightarrow> Returns ([], [])
                | Response_valid strengths weaknesses \<Rightarrow> Returns (strengths, weaknesses)))"

definition wait_exponential :: "nat \<Rightarrow> nat" where
  \<comment> \<open>seconds slept after attempt \<open>n\<close>: \<open>2 ^ (n - 1)\<close>, kept between 4 and 10\<close>
  "wait_exponential n = max 4 (min (2 ^ (n - 1)) 10)"

fun retry_from :: "nat \<Rightarrow> nat \<Rightarrow> (nat \<Rightarrow> 'a attempt) \<Rightarrow> (retry_error + 'a) \<times> nat list" where
  \<comment> \<open>\<open>left\<close> calls still allowed, the next one being attempt \<open>n\<close>; returns the sleeps too\<close>
  "retry_from 0 n f = (Inl RetryError, [])"
| "retry_from (Suc left) n f =
     (case f n of
        Returns r \<Rightarrow> (Inr r, [])
      | Raises \<Rightarrow>
          if left = 0 then (Inl RetryError, [])
          else (let (res, sleeps) = retry_from left (Suc n) f
                in (res, wait_exponential n # sleeps)))"

definition process_review ::
  "(nat \<Rightarrow> generate_result) \<Rightarrow> string \<Rightarrow> string option
   \<Rightarrow> (retry_error + string list \<times> string list) \<times> nat list" where
  \<comment> \<open>\<open>client_generate n\<close> is what the model call does in attempt \<open>n\<close> (from 1)\<close>
  "process_review client_generate review_title content =
     retry_from 3 1 (\<lambda>n. process_review_body review_title content (client_generate n))"



section \<open>Reviews (\<open>review_scraper.py\<close>)\<close>

text \<open>
  A review article is known by what the \<open>find\<close> calls of the loop body return on it. The
  rating star holds the inner rating span, if there is one; the title link holds its
  \<open>h3\<close>, if there is one, and its attributes.
\<close>

record title_link =
  h3 :: "element option"
  link_attrs :: "(string \<times> string) list"

record review_article =
  rating_elem :: "element option option"
  title_elem :: "title_link option"
  content_elem :: "element option"
  vote_elem :: "element option"
  downvote_elem :: "element option"
  date_elem :: "element option"

record review_page =
  total_reviews_elem :: "element option"
  review_articles :: "review_article list"

record review_data =
  movie_title :: string
  review_score :: string
  review_title :: string
  review_content :: string
  upvotes :: string
  downvotes :: string
  date :: string
  permalink :: string

datatype py_exception = ValueError | AttributeError

definition py_int :: "string \<Rightarrow> py_exception + int" where
  \<comment> \<open>\<open>int(s)\<close> for a string of \<open>str.isdigit\<close> characters: only decimal digits convert.
      (CPython's limit on the number of digits of the string is left out.)\<close>
  "py_int s =
     (if s \<noteq> [] \<and> list_all py_isdecimal s
      then Inr (foldl (\<lambda>n c. 10 * n + (int (cp c) - 48)) 0 s)
      else Inl ValueError)"

definition extract_total_reviews :: "review_page \<Rightarrow> py_exception + int" where
  "extract_total_reviews soup =
     (case total_reviews_elem soup of
        Some e \<Rightarrow>
          (let total_text = py_strip (get_text e);
               num_reviews = filter py_isdigit total_text
           in if num_reviews \<noteq> [] then py_int num_reviews else Inr 0)
      | None \<Rightarrow> Inr 0)"

definition parse_review :: "string \<Rightarrow> string \<Rightarrow> review_article \<Rightarrow> py_exception + review_data" where
  \<comment> \<open>the body of the \<open>try\<close> in the loop over the articles\<close>
  "parse_review title_of_movie movie_url review =
     (case (case rating_elem review of
              None \<Rightarrow> Inr ''N/A''
            | Some None \<Rightarrow> Inl AttributeError
            | Some (Some star) \<Rightarrow> Inr (py_strip (get_text star))) of
        Inl e \<Rightarrow> Inl e
      | Inr score \<Rightarrow>
          (case (case title_elem review of
                   None \<Rightarrow> Inr (''N/A'', movie_url)
                 | Some link \<Rightarrow>
                     (case h3 link of
                        None \<Rightarrow> Inl AttributeError
                      | Some heading \<Rightarrow>
                          Inr (py_strip (get_text heading),
                               (case map_of (link_attrs link) ''href'' of
                                  None \<Rightarrow> movie_url
                                | Some href \<Rightarrow>
                                    if href \<noteq> [] then ''https://www.imdb.com'' @ href
                                    else movie_url)))) of
             Inl e \<Rightarrow> Inl e
           | Inr (heading_text, link_url) \<Rightarrow>
               Inr \<lparr>movie_title = title_of_movie,
                    review_score = score,
                    review_title = heading_text,
                    review_content = text_or (content_elem review) ''N/A'',
                    upvotes = text_or (vote_elem review) ''N/A'',
                    downvotes = text_or (downvote_elem review) ''N/A'',
                    date = text_or (date_elem review) ''N/A'',
                    permalink = link_url\<rparr>))"

definition add_review :: "string \<Rightarrow> string \<Rightarrow> review_article \<Rightarrow> review_data list \<Rightarrow> review_data list" where
  \<comment> \<open>one round of the loop: the record is appended, or the exception is logged\<close>
  "add_review title_of_movie movie_url review reviews =
     (case parse_review title_of_movie movie_url review of
        Inl _ \<Rightarrow> reviews
      | Inr review_data \<Rightarrow> reviews @ [review_data])"

definition extract_reviews ::
  "review_page \<Rightarrow> string \<Rightarrow> string \<Rightarrow> py_exception + review_data list \<times> int" where
  "extract_reviews soup title_of_movie movie_url =
     (case extract_total_reviews soup of
        Inl e \<Rightarrow> Inl e
      | Inr total_reviews \<Rightarrow>
          if review_articles soup = [] then Inr ([], total_reviews)
          else Inr (fold (add_review title_of_movie movie_url) (take 25 (review_articles soup)) [],
                    total_reviews))"

section \<open>Example inputs\<close>

definition elem_text :: "string \<Rightarrow> element" where
  "elem_text t = \<lparr>strings = [t], attrs = []\<rparr>"

definition anchor :: "string \<Rightarrow> element" where
  "anchor href = \<lparr>strings = [], attrs = [(''href'', href)]\<rparr>"

definition empty_document :: document where
  "empty_document =
     \<lparr>select = (\<lambda>_. []), find_tag = (\<lambda>_. None), find_class = (\<lambda>_ _. None),
      find_all_class = (\<lambda>_ _. []), box_office_section = None, detail_sections = [],
      director_section = None\<rparr>"

definition rating_on_second :: document where
  \<comment> \<open>the first rating selector finds nothing, the second an element reading \<open>7.4 / 10\<close>\<close>
  "rating_on_second =
     empty_document\<lparr>select :=
       (\<lambda>s. if s = ''span.sc-bde20123-1'' then [elem_text ''7.4 / 10''] else [])\<rparr>"

definition year_in_span :: document where
  "year_in_span =
     empty_document\<lparr>select :=
       (\<lambda>s. if s = ''span.sc-8c396aa2-2'' then [elem_text '' 2019 ''] else [])\<rparr>"

definition year_in_title :: document where
  "year_in_title =
     empty_document\<lparr>find_tag :=
       (\<lambda>t. if t = ''title'' then Some (elem_text ''Parasite (2019) - IMDb'') else None)\<rparr>"

definition rating_integer :: document where
  \<comment> \<open>the first rating selector finds an element reading \<open>Rated 8/10\<close>\<close>
  \<open>rating_integer =
     empty_document\<lparr>select :=
       (\<lambda>s. if s = ''div[data-testid="hero-rating-bar__aggregate-rating__score"] span''
            then [elem_text ''Rated 8/10''] else [])\<rparr>\<close>

definition name_then_title :: document where
  \<comment> \<open>a heading anchor that leads to a person's page, and a plain anchor to a title page:
      \<open><div class="lister-item-content"><h3 class="lister-item-header">
      <a href="/name/nm0000001/">..</a></h3></div> <a href="/title/tt0000001/">..</a>\<close>\<close>
  \<open>name_then_title =
     empty_document\<lparr>select :=
       (\<lambda>s. if s = ''div.lister-item-content h3.lister-item-header a''
               \<or> s = ''h3.lister-item-header a''
            then [anchor ''/name/nm0000001/'']
            else if s = ''a[href^="/title/tt"]'' then [anchor ''/title/tt0000001/'']
            else [])\<rparr>\<close>

definition name_then_title_ver4 :: document where
  \<comment> \<open>the same heading anchor, and inside \<open>div.lister-item\<close> an anchor to \<open>/title/pilot/\<close>\<close>
  \<open>name_then_title_ver4 =
     empty_document\<lparr>select :=
       (\<lambda>s. if s = ''div.lister-item-content h3.lister-item-header a''
               \<or> s = ''h3.lister-item-header a''
            then [anchor ''/name/nm0000001/'']
            else if s = ''div.lister-item a[href^="/title/"]'' then [anchor ''/title/pilot/'']
            else [])\<rparr>\<close>


definition serve :: "document \<Rightarrow> http" where
  \<comment> \<open>a network on which every request is answered with the same page\<close>
  "serve page = (\<lambda>u n. Page page)"

definition detail_page_ok :: document where
  \<comment> \<open>a detail page with a heading, a year and a rating\<close>
  "detail_page_ok =
     empty_document\<lparr>select :=
       (\<lambda>s. if s = ''span.sc-bde20123-1'' then [elem_text ''7.4 / 10'']
            else if s = ''span.sc-8c396aa2-2'' then [elem_text ''2019'']
            else []),
       find_tag := (\<lambda>t. if t = ''h1'' then Some (elem_text ''Parasite'') else None)\<rparr>"

definition detail_page_unrated :: document where
  \<comment> \<open>the same page without any rating element\<close>
  "detail_page_unrated =
     empty_document\<lparr>select :=
       (\<lambda>s. if s = ''span.sc-8c396aa2-2'' then [elem_text ''2019''] else []),
       find_tag := (\<lambda>t. if t = ''h1'' then Some (elem_text ''Parasite'') else None)\<rparr>"

definition listing :: "string list \<Rightarrow> document" where
  \<comment> \<open>a listing page whose title anchors have the given \<open>href\<close>s\<close>
  \<open>listing hrefs =
     empty_document\<lparr>select :=
       (\<lambda>s. if s = ''a[href^="/title/tt"]'' then map anchor hrefs else [])\<rparr>\<close>

definition listing_ABC :: document where
  "listing_ABC =
     listing [''/title/tt0000001/'', ''/title/tt0000002/?ref_=adv_li_tt'', ''/title/tt0000003/'']"

definition listing_BCD :: document where
  "listing_BCD = listing [''/title/tt0000002/'', ''/title/tt0000003/'', ''/title/tt0000004/'']"

definition detail_mixed :: http where
  \<comment> \<open>title 1 and title 4 have a full page, the request for title 2 times out, the one for
      title 3 ends in an exception of another class, any other page lacks a rating\<close>
  "detail_mixed =
     (\<lambda>u n. if u = ''https://www.imdb.com/title/tt0000001/'' then Page detail_page_ok
            else if u = ''https://www.imdb.com/title/tt0000002/'' then Request_exception
            else if u = ''https://www.imdb.com/title/tt0000003/'' then Other_exception
            else if u = ''https://www.imdb.com/title/tt0000004/'' then Page detail_page_ok
            else Page detail_page_unrated)"

definition web_two_pages :: web where
  \<comment> \<open>page 1 lists titles 1, 2, 3; page 2 lists titles 2, 3, 4; the request for page 3 fails\<close>
  "web_two_pages =
     \<lparr>search_results =
        (\<lambda>start_index n. if start_index = 1 then Page listing_ABC
                         else if start_index = 51 then Page listing_BCD
                         else Request_exception),
      detail = detail_mixed\<rparr>"

definition web_repeat :: web where
  \<comment> \<open>pages 1 and 2 list the same titles 1, 2, 3; page 3 lists titles 2, 3, 4\<close>
  "web_repeat =
     \<lparr>search_results =
        (\<lambda>start_index n. if start_index = 1 \<or> start_index = 51 then Page listing_ABC
                         else if start_index = 101 then Page listing_BCD
                         else Request_exception),
      detail = detail_mixed\<rparr>"

definition flaky :: http where
  \<comment> \<open>the first request for any URL times out, every later one is answered\<close>
  "flaky = (\<lambda>u n. if n = 0 then Request_exception else Page detail_page_ok)"

definition flaky_web :: web where
  "flaky_web =
     \<lparr>search_results = (\<lambda>start_index n. if n = 0 then Request_exception else Page listing_ABC),
      detail = flaky\<rparr>"

definition generate_third_time :: "nat \<Rightarrow> generate_result" where
  \<comment> \<open>the model call raises in attempts 1 and 2 and answers from attempt 3 on\<close>
  "generate_third_time n =
     (if n < 3 then Generate_raises else Response_valid [''acting''] [''pacing''])"

definition generate_fourth_time :: "nat \<Rightarrow> generate_result" where
  "generate_fourth_time n =
     (if n < 4 then Generate_raises else Response_valid [''acting''] [''pacing''])"

definition superscript_two :: char where
  \<comment> \<open>U+00B2, the superscript digit two\<close>
  "superscript_two = CHR 0xB2"

definition page_superscript :: review_page where
  \<comment> \<open>a review page whose total-reviews element reads \<open>5\<close>, superscript two, \<open> reviews\<close>\<close>
  "page_superscript =
     \<lparr>total_reviews_elem = Some (elem_text (''5'' @ [superscript_two] @ '' reviews'')),
      review_articles = []\<rparr>"

definition page_superscript_only :: review_page where
  \<comment> \<open>the same with no decimal digit at all in the element\<close>
  "page_superscript_only =
     \<lparr>total_reviews_elem = Some (elem_text ([superscript_two] @ '' reviews'')),
      review_articles = []\<rparr>"

definition plain_article :: review_article where
  "plain_article =
     \<lparr>rating_elem = Some (Some (elem_text ''8'')),
      title_elem = Some \<lparr>h3 = Some (elem_text ''Great''), link_attrs = [(''href'', ''/review/rw1/'')]\<rparr>,
      content_elem = Some (elem_text ''Loved it.''), vote_elem = Some (elem_text ''12''),
      downvote_elem = Some (elem_text ''3''), date_elem = Some (elem_text ''Jan 1, 2024'')\<rparr>"

definition broken_article :: review_article where
  \<comment> \<open>a rating star without the inner rating span: parsing it raises\<close>
  "broken_article = plain_article\<lparr>rating_elem := Some None\<rparr>"

definition page_thirty :: review_page where
  \<comment> \<open>thirty articles, the second of them broken, and a total of \<open>1,234 reviews\<close>\<close>
  "page_thirty =
     \<lparr>total_reviews_elem = Some (elem_text '' 1,234 reviews ''),
      review_articles = plain_article # broken_article # replicate 28 plain_article\<rparr>"


section \<open>Properties\<close>

subsection \<open>Field extraction\<close>

lemma rating_strategy_cong:
  "select soup' p = select soup p \<Longrightarrow> rating_strategy soup' p = rating_strategy soup p"
  by (simp add: rating_strategy_def select_one_def)

lemma year_strategy_cong:
  "select soup' p = select soup p \<Longrightarrow> year_strategy soup' p = year_strategy soup p"
  by (simp add: year_strategy_def select_one_def)

lemma rating_loop_step:
  "extract_rating_loop soup (s # rest) =
     (case rating_strategy soup s of None \<Rightarrow> extract_rating_loop soup rest | Some v \<Rightarrow> v)"
  by (simp add: rating_strategy_def split: option.splits)

lemma rating_loop_skip:
  "\<forall>p \<in> set pre. rating_strategy soup p = None \<Longrightarrow>
   extract_rating_loop soup (pre @ rest) = extract_rating_loop soup rest"
  by (induction pre) (simp_all add: rating_loop_step del: extract_rating_loop.simps(2))

lemma year_loop_step:
  "extract_year_loop soup (s # rest) =
     (case year_strategy soup s of None \<Rightarrow> extract_year_loop soup rest | Some v \<Rightarrow> v)"
  by (simp add: year_strategy_def split: option.splits)

lemma year_loop_skip:
  "\<forall>p \<in> set pre. year_strategy soup p = None \<Longrightarrow>
   extract_year_loop soup (pre @ rest) = extract_year_loop soup rest"
  by (induction pre) (simp_all add: year_loop_step del: extract_year_loop.simps(2))

lemma year_from_title_eq:
  "year_from_title soup = (case title_strategy soup of None \<Rightarrow> ''N/A'' | Some y \<Rightarrow> y)"
  by (simp add: year_from_title_def title_strategy_def split: option.splits)

text \<open>
  Claim C1. \<open>extract_rating\<close> and \<open>extract_year\<close> run their loops over the selector lists of
  the source; for any selector list, the loop returns the value of the first strategy that
  yields one, and that value is the same on every document that answers alike up to that
  strategy, whatever the later selectors would find. When no selector yields a value,
  the rating is \<open>N/A\<close>, and the year is the one found in the page title, or \<open>N/A\<close> when the
  title has none.
\<close>

theorem extract_first_successful_strategy:
  "((\<forall>p \<in> set pre. rating_strategy soup p = None) \<and> rating_strategy soup s = Some v
      \<and> (\<forall>p \<in> set (pre @ [s]). select soup' p = select soup p)
      \<longrightarrow> extract_rating_loop soup' (pre @ s # post) = v)
   \<and> ((\<forall>p \<in> set sels. rating_strategy soup p = None) \<longrightarrow> extract_rating_loop soup sels = ''N/A'')
   \<and> ((\<forall>p \<in> set pre. year_strategy soup p = None) \<and> year_strategy soup s = Some y
      \<and> (\<forall>p \<in> set (pre @ [s]). select soup' p = select soup p)
      \<longrightarrow> extract_year_loop soup' (pre @ s # post) = y)
   \<and> ((\<forall>p \<in> set sels. year_strategy soup p = None) \<and> title_strategy soup = Some y
      \<longrightarrow> extract_year_loop soup sels = y)
   \<and> ((\<forall>p \<in> set sels. year_strategy soup p = None) \<and> title_strategy soup = None
      \<longrightarrow> extract_year_loop soup sels = ''N/A'')
   \<and> extract_rating soup = extract_rating_loop soup rating_selectors
   \<and> extract_year soup = extract_year_loop soup year_selectors"
proof (intro conjI impI)
  assume a: "(\<forall>p \<in> set pre. rating_strategy soup p = None) \<and> rating_strategy soup s = Some v
      \<and> (\<forall>p \<in> set (pre @ [s]). select soup' p = select soup p)"
  then have "\<forall>p \<in> set pre. rating_strategy soup' p = None" and "rating_strategy soup' s = Some v"
    using rating_strategy_cong [of soup' _ soup] by auto
  then show "extract_rating_loop soup' (pre @ s # post) = v"
    by (simp add: rating_loop_skip rating_loop_step del: extract_rating_loop.simps(2))
next
  assume "\<forall>p \<in> set sels. rating_strategy soup p = None"
  then show "extract_rating_loop soup sels = ''N/A''"
    using rating_loop_skip [of sels soup "[]"] by simp
next
  assume a: "(\<forall>p \<in> set pre. year_strategy soup p = None) \<and> year_strategy soup s = Some y
      \<and> (\<forall>p \<in> set (pre @ [s]). select soup' p = select soup p)"
  then have "\<forall>p \<in> set pre. year_strategy soup' p = None" and "year_strategy soup' s = Some y"
    using year_strategy_cong [of soup' _ soup] by auto
  then show "extract_year_loop soup' (pre @ s # post) = y"
    by (simp add: year_loop_skip year_loop_step del: extract_year_loop.simps(2))
next
  assume "(\<forall>p \<in> set sels. year_strategy soup p = None) \<and> title_strategy soup = Some y"
  then show "extract_year_loop soup sels = y"
    using year_loop_skip [of sels soup "[]"] by (simp add: year_from_title_eq)
next
  assume "(\<forall>p \<in> set sels. year_strategy soup p = None) \<and> title_strategy soup = None"
  then show "extract_year_loop soup sels = ''N/A''"
    using year_loop_skip [of sels soup "[]"] by (simp add: year_from_title_eq)
qed (simp_all add: extract_rating_def extract_year_def)

theorem extract_first_successful_strategy_witness:
  "rating_strategy rating_on_second (rating_selectors ! 0) = None
   \<and> rating_strategy rating_on_second (rating_selectors ! 1) = Some ''7.4''
   \<and> extract_rating rating_on_second = ''7.4''
   \<and> extract_rating empty_document = ''N/A''
   \<and> year_strategy year_in_span (year_selectors ! 3) = Some ''2019''
   \<and> extract_year year_in_span = ''2019''
   \<and> title_strategy year_in_title = Some ''2019''
   \<and> extract_year year_in_title = ''2019''
   \<and> extract_year empty_document = ''N/A''"
proof -
  note main = extract_first_successful_strategy
  have r0: "\<forall>p \<in> set (take 1 rating_selectors). rating_strategy rating_on_second p = None"
    by code_simp
  have r1: "rating_strategy rating_on_second (rating_selectors ! 1) = Some ''7.4''"
    by code_simp
  have rs: "take 1 rating_selectors @ rating_selectors ! 1 # drop 2 rating_selectors = rating_selectors"
    by (simp add: rating_selectors_def)
  have a: "extract_rating rating_on_second = ''7.4''"
    using main [where pre = "take 1 rating_selectors" and soup = rating_on_second
                  and s = "rating_selectors ! 1" and v = "''7.4''" and soup' = rating_on_second
                  and post = "drop 2 rating_selectors"] r0 r1 rs
    by simp
  have e0: "\<forall>p \<in> set rating_selectors. rating_strategy empty_document p = None"
    by code_simp
  have b: "extract_rating empty_document = ''N/A''"
    using main [where soup = empty_document and sels = rating_selectors] e0
    by simp
  have y0: "\<forall>p \<in> set (take 3 year_selectors). year_strategy year_in_span p = None"
    by code_simp
  have y1: "year_strategy year_in_span (year_selectors ! 3) = Some ''2019''"
    by code_simp
  have ys: "take 3 year_selectors @ year_selectors ! 3 # drop 4 year_selectors = year_selectors"
    by (simp add: year_selectors_def)
  have c: "extract_year year_in_span = ''2019''"
    using main [where pre = "take 3 year_selectors" and soup = year_in_span
                  and s = "year_selectors ! 3" and y = "''2019''" and soup' = year_in_span
                  and post = "drop 4 year_selectors"] y0 y1 ys
    by simp
  have t0: "\<forall>p \<in> set year_selectors. year_strategy year_in_title p = None"
    by code_simp
  have t1: "title_strategy year_in_title = Some ''2019''"
    by code_simp
  have d: "extract_year year_in_title = ''2019''"
    using main [where soup = year_in_title and sels = year_selectors and y = "''2019''"] t0 t1
    by simp
  have n0: "\<forall>p \<in> set year_selectors. year_strategy empty_document p = None"
    by code_simp
  have n1: "title_strategy empty_document = None"
    by code_simp
  have e: "extract_year empty_document = ''N/A''"
    using main [where soup = empty_document and sels = year_selectors] n0 n1
    by simp
  from r0 have r0': "rating_strategy rating_on_second (rating_selectors ! 0) = None"
    by (simp add: rating_selectors_def)
  show ?thesis using r0' r1 a b y1 c t1 d e by simp
qed

subsection \<open>The rating pattern\<close>

lemma space_not_decimal: "py_isspace c \<Longrightarrow> \<not> py_isdecimal c"
  by (auto simp: py_isspace_def py_isdecimal_def)

lemma space_not_dot: "py_isspace c \<Longrightarrow> c \<noteq> CHR ''.''"
  by (auto simp: py_isspace_def cp_def)

lemma dot_not_decimal: "\<not> py_isdecimal CHR ''.''"
  by (simp add: py_isdecimal_def cp_def)

lemma dropWhile_nondecimal_spaces:
  "dropWhile (\<lambda>c. \<not> py_isdecimal c) (dropWhile py_isspace s) = dropWhile (\<lambda>c. \<not> py_isdecimal c) s"
  by (induction s) (auto simp: space_not_decimal)

lemma takeWhile_append_stop: "\<exists>c \<in> set xs. \<not> P c \<Longrightarrow> takeWhile P (xs @ ys) = takeWhile P xs"
  by (auto simp: takeWhile_append1)

lemma dropWhile_append_stop: "\<exists>c \<in> set xs. \<not> P c \<Longrightarrow> dropWhile P (xs @ ys) = dropWhile P xs @ ys"
  by (auto simp: dropWhile_append1)

lemma takeWhile_append_all: "\<forall>c \<in> set xs. P c \<Longrightarrow> takeWhile P (xs @ ys) = xs @ takeWhile P ys"
  by (simp add: takeWhile_append2)

lemma dropWhile_append_all: "\<forall>c \<in> set xs. P c \<Longrightarrow> dropWhile P (xs @ ys) = dropWhile P ys"
  by (simp add: dropWhile_append2)

lemma takeWhile_none: "xs = [] \<or> \<not> P (hd xs) \<Longrightarrow> takeWhile P xs = []"
  by (cases xs) auto

lemma dropWhile_none: "xs = [] \<or> \<not> P (hd xs) \<Longrightarrow> dropWhile P xs = xs"
  by (cases xs) auto

lemma rating_match_whole:
  "\<forall>c \<in> set whole. py_isdecimal c \<Longrightarrow> rest = [] \<or> \<not> py_isdecimal (hd rest) \<Longrightarrow>
   rating_match (whole @ rest) =
     (case rest of c # frac \<Rightarrow> if c = CHR ''.'' then whole @ ''.'' @ takeWhile py_isdecimal frac else whole
      | [] \<Rightarrow> whole)"
  unfolding rating_match_def
  by (simp only: takeWhile_append_all dropWhile_append_all takeWhile_none dropWhile_none
        append_Nil2 Let_def)

lemma rating_match_spaces:
  assumes sp: "\<forall>c \<in> set ws. py_isspace c"
  shows "rating_match (u @ ws) = rating_match u"
proof -
  define whole where "whole = takeWhile py_isdecimal u"
  define rest where "rest = dropWhile py_isdecimal u"
  have u: "u = whole @ rest" by (simp add: whole_def rest_def)
  have w: "\<forall>c \<in> set whole. py_isdecimal c" by (auto simp: whole_def dest: set_takeWhileD)
  have r: "rest = [] \<or> \<not> py_isdecimal (hd rest)"
    unfolding rest_def using hd_dropWhile [of py_isdecimal u] by blast
  have ws0: "ws = [] \<or> \<not> py_isdecimal (hd ws)"
    using sp by (cases ws) (auto simp: space_not_decimal)
  have r': "rest @ ws = [] \<or> \<not> py_isdecimal (hd (rest @ ws))"
    using r ws0 by (cases rest) auto
  have c: "(case rest @ ws of c # frac \<Rightarrow> if c = CHR ''.'' then whole @ ''.'' @ takeWhile py_isdecimal frac else whole
      | [] \<Rightarrow> whole) =
     (case rest of c # frac \<Rightarrow> if c = CHR ''.'' then whole @ ''.'' @ takeWhile py_isdecimal frac else whole
      | [] \<Rightarrow> whole)"
  proof (cases rest)
    case Nil
    then show ?thesis using sp by (cases ws) (auto simp: space_not_dot)
  next
    case (Cons x xs)
    have "takeWhile py_isdecimal (xs @ ws) = takeWhile py_isdecimal xs"
    proof (cases "\<exists>c \<in> set xs. \<not> py_isdecimal c")
      case True
      then show ?thesis by (rule takeWhile_append_stop)
    next
      case False
      then have all: "\<forall>c \<in> set xs. py_isdecimal c" by simp
      have a1: "takeWhile py_isdecimal (xs @ ws) = xs @ takeWhile py_isdecimal ws"
        using all by (rule takeWhile_append_all)
      have a2: "takeWhile py_isdecimal ws = []" using ws0 by (rule takeWhile_none)
      have a3: "takeWhile py_isdecimal xs = xs" using all by (simp add: takeWhile_eq_all_conv)
      show ?thesis by (simp only: a1 a2 a3 append_Nil2)
    qed
    with Cons show ?thesis by simp
  qed
  have "rating_match (u @ ws) = rating_match (whole @ rest @ ws)"
    by (simp add: u)
  also have "\<dots> = rating_match (whole @ rest)"
    unfolding rating_match_whole [OF w r'] rating_match_whole [OF w r] by (rule c)
  also have "\<dots> = rating_match u" by (simp add: u)
  finally show ?thesis .
qed

lemma re_search_rating_spaces:
  assumes sp: "\<forall>c \<in> set ws. py_isspace c"
  shows "re_search_rating (t @ ws) = re_search_rating t"
proof (cases "\<exists>c \<in> set t. \<not> \<not> py_isdecimal c")
  case True
  then have d: "dropWhile (\<lambda>c. \<not> py_isdecimal c) (t @ ws) = dropWhile (\<lambda>c. \<not> py_isdecimal c) t @ ws"
    by (rule dropWhile_append_stop)
  from True have "dropWhile (\<lambda>c. \<not> py_isdecimal c) t \<noteq> []"
    by (auto simp: dropWhile_eq_Nil_conv)
  then obtain a l where al: "dropWhile (\<lambda>c. \<not> py_isdecimal c) t = a # l"
    by (cases "dropWhile (\<lambda>c. \<not> py_isdecimal c) t") auto
  have "rating_match ((a # l) @ ws) = rating_match (a # l)"
    by (rule rating_match_spaces [OF sp])
  then show ?thesis
    by (simp add: re_search_rating_def d al)
next
  case False
  then have a: "dropWhile (\<lambda>c. \<not> py_isdecimal c) (t @ ws) = dropWhile (\<lambda>c. \<not> py_isdecimal c) ws"
    and b: "dropWhile (\<lambda>c. \<not> py_isdecimal c) t = []"
    by (simp_all add: dropWhile_append_all)
  have c: "dropWhile (\<lambda>c. \<not> py_isdecimal c) ws = []"
    using sp by (simp add: space_not_decimal)
  show ?thesis unfolding re_search_rating_def a b c ..
qed

lemma py_strip_decompose:
  "\<exists>ws. (\<forall>c \<in> set ws. py_isspace c) \<and> dropWhile py_isspace t = py_strip t @ ws"
proof -
  let ?u = "dropWhile py_isspace t"
  let ?ws = "rev (takeWhile py_isspace (rev ?u))"
  have "py_strip t @ ?ws = rev (takeWhile py_isspace (rev ?u) @ dropWhile py_isspace (rev ?u))"
    by (simp only: py_strip_def rev_append)
  also have "\<dots> = rev (rev ?u)" by (simp only: takeWhile_dropWhile_id)
  also have "\<dots> = ?u" by simp
  finally have "?u = py_strip t @ ?ws" by simp
  moreover have "\<forall>c \<in> set ?ws. py_isspace c" by (auto dest: set_takeWhileD)
  ultimately show ?thesis by blast
qed

lemma re_search_rating_strip: "re_search_rating (py_strip t) = re_search_rating t"
proof -
  obtain ws where ws: "\<forall>c \<in> set ws. py_isspace c" and u: "dropWhile py_isspace t = py_strip t @ ws"
    using py_strip_decompose by blast
  have "re_search_rating (py_strip t) = re_search_rating (py_strip t @ ws)"
    using re_search_rating_spaces [OF ws] by simp
  also have "\<dots> = re_search_rating (dropWhile py_isspace t)" using u by simp
  also have "\<dots> = re_search_rating t"
    by (simp add: re_search_rating_def dropWhile_nondecimal_spaces)
  finally show ?thesis .
qed

lemma re_search_rating_lead:
  assumes "\<forall>c \<in> set lead. \<not> py_isdecimal c" "py_isdecimal w"
  shows "re_search_rating (lead @ w # rest) = Some (rating_match (w # rest))"
proof -
  have "dropWhile (\<lambda>c. \<not> py_isdecimal c) (lead @ w # rest) = dropWhile (\<lambda>c. \<not> py_isdecimal c) (w # rest)"
    using assms(1) by (rule dropWhile_append_all)
  also have "\<dots> = w # rest" using assms(2) by simp
  finally show ?thesis by (simp add: re_search_rating_def)
qed

lemma re_search_rating_decimal:
  assumes "\<forall>c \<in> set lead. \<not> py_isdecimal c" "whole \<noteq> []" "\<forall>c \<in> set whole. py_isdecimal c"
    "\<forall>c \<in> set frac. py_isdecimal c" "trail = [] \<or> \<not> py_isdecimal (hd trail)"
  shows "re_search_rating (lead @ whole @ ''.'' @ frac @ trail) = Some (whole @ ''.'' @ frac)"
proof -
  obtain w ws where w: "whole = w # ws" using assms(2) by (cases whole) auto
  let ?rest = "CHR ''.'' # frac @ trail"
  have "re_search_rating (lead @ w # (ws @ ?rest)) = Some (rating_match (w # (ws @ ?rest)))"
    using assms(1,3) w by (intro re_search_rating_lead) auto
  then have a: "re_search_rating (lead @ whole @ ''.'' @ frac @ trail) = Some (rating_match (whole @ ?rest))"
    using w by simp
  have f: "takeWhile py_isdecimal (frac @ trail) = frac"
    using assms(4,5) by (simp add: takeWhile_append_all takeWhile_none)
  have "rating_match (whole @ ?rest) = whole @ ''.'' @ takeWhile py_isdecimal (frac @ trail)"
    using rating_match_whole [OF assms(3), of ?rest] dot_not_decimal by simp
  with a f show ?thesis by simp
qed

lemma re_search_rating_integer:
  assumes "\<forall>c \<in> set lead. \<not> py_isdecimal c" "whole \<noteq> []" "\<forall>c \<in> set whole. py_isdecimal c"
    "trail = [] \<or> (\<not> py_isdecimal (hd trail) \<and> hd trail \<noteq> CHR ''.'')"
  shows "re_search_rating (lead @ whole @ trail) = Some whole"
proof -
  obtain w ws where w: "whole = w # ws" using assms(2) by (cases whole) auto
  have "re_search_rating (lead @ w # (ws @ trail)) = Some (rating_match (w # (ws @ trail)))"
    using assms(1,3) w by (intro re_search_rating_lead) auto
  then have a: "re_search_rating (lead @ whole @ trail) = Some (rating_match (whole @ trail))"
    using w by simp
  have "rating_match (whole @ trail) = whole"
    using rating_match_whole [OF assms(3), of trail] assms(4) by (cases trail) auto
  with a show ?thesis by simp
qed

text \<open>
  Claim C9. Let the rating element be the one the first successful selector of
  \<open>rating_selectors\<close> locates. When its text reads some digit-free lead, then a run of decimal
  digits, a dot and further digits, then anything not starting with a digit,
  \<open>extract_rating\<close> returns exactly the digits, the dot and the digits: neither the surrounding
  text nor a later number. A run of digits followed by neither a digit nor a dot is returned
  on its own.
\<close>

theorem extract_rating_first_decimal_run:
  "rating_selectors = pre @ s # post
   \<and> (\<forall>p \<in> set pre. rating_strategy soup p = None) \<and> select_one soup s = Some e
   \<and> (\<forall>c \<in> set lead. \<not> py_isdecimal c) \<and> whole \<noteq> [] \<and> (\<forall>c \<in> set whole. py_isdecimal c)
   \<longrightarrow>
     (get_text e = lead @ whole @ ''.'' @ frac @ trail
        \<and> (\<forall>c \<in> set frac. py_isdecimal c) \<and> (trail = [] \<or> \<not> py_isdecimal (hd trail))
      \<longrightarrow> extract_rating soup = whole @ ''.'' @ frac)
   \<and> (get_text e = lead @ whole @ trail
        \<and> (trail = [] \<or> (\<not> py_isdecimal (hd trail) \<and> hd trail \<noteq> CHR ''.''))
      \<longrightarrow> extract_rating soup = whole)"
proof (intro impI conjI)
  assume a: "rating_selectors = pre @ s # post
   \<and> (\<forall>p \<in> set pre. rating_strategy soup p = None) \<and> select_one soup s = Some e
   \<and> (\<forall>c \<in> set lead. \<not> py_isdecimal c) \<and> whole \<noteq> [] \<and> (\<forall>c \<in> set whole. py_isdecimal c)"
  then have eq: "rating_selectors = pre @ s # post"
    and skip: "\<forall>p \<in> set pre. rating_strategy soup p = None" by blast+
  have loop: "extract_rating soup = (case rating_strategy soup s of None \<Rightarrow> extract_rating_loop soup post | Some v \<Rightarrow> v)"
    unfolding extract_rating_def eq rating_loop_skip [OF skip] rating_loop_step ..
  from a have strat: "rating_strategy soup s = re_search_rating (get_text e)"
    by (simp add: rating_strategy_def re_search_rating_strip)
  {
    assume b: "get_text e = lead @ whole @ ''.'' @ frac @ trail
        \<and> (\<forall>c \<in> set frac. py_isdecimal c) \<and> (trail = [] \<or> \<not> py_isdecimal (hd trail))"
    have "re_search_rating (lead @ whole @ ''.'' @ frac @ trail) = Some (whole @ ''.'' @ frac)"
      using a b by (intro re_search_rating_decimal) simp_all
    with b show "extract_rating soup = whole @ ''.'' @ frac"
      by (simp add: loop strat)
  }
  {
    assume b: "get_text e = lead @ whole @ trail
        \<and> (trail = [] \<or> (\<not> py_isdecimal (hd trail) \<and> hd trail \<noteq> CHR ''.''))"
    have "re_search_rating (lead @ whole @ trail) = Some whole"
      using a b by (intro re_search_rating_integer) simp_all
    with b show "extract_rating soup = whole"
      by (simp add: loop strat)
  }
qed

theorem extract_rating_first_decimal_run_witness:
  "get_text (elem_text ''7.4 / 10'') = ''7.4 / 10''
   \<and> select_one rating_on_second (rating_selectors ! 0) = None
   \<and> select_one rating_on_second (rating_selectors ! 1) = Some (elem_text ''7.4 / 10'')
   \<and> extract_rating rating_on_second = ''7.4''
   \<and> select_one rating_integer (rating_selectors ! 0) = Some (elem_text ''Rated 8/10'')
   \<and> extract_rating rating_integer = ''8''"
proof -
  note main = extract_rating_first_decimal_run
  have rs: "rating_selectors = take 1 rating_selectors @ rating_selectors ! 1 # drop 2 rating_selectors"
    by (simp add: rating_selectors_def)
  have r0: "\<forall>p \<in> set (take 1 rating_selectors). rating_strategy rating_on_second p = None"
    by code_simp
  have s0: "select_one rating_on_second (rating_selectors ! 0) = None"
    by code_simp
  have s1: "select_one rating_on_second (rating_selectors ! 1) = Some (elem_text ''7.4 / 10'')"
    by code_simp
  have t1: "get_text (elem_text ''7.4 / 10'') = [] @ ''7'' @ ''.'' @ ''4'' @ '' / 10''"
    by code_simp
  have d1: "(\<forall>c \<in> set ''7''. py_isdecimal c) \<and> (\<forall>c \<in> set ''4''. py_isdecimal c)
            \<and> \<not> py_isdecimal (hd '' / 10'')"
    by code_simp
  have a: "extract_rating rating_on_second = ''7.4''"
    using main [where pre = "take 1 rating_selectors" and s = "rating_selectors ! 1"
                  and post = "drop 2 rating_selectors" and soup = rating_on_second
                  and e = "elem_text ''7.4 / 10''" and lead = "[]" and whole = "''7''"
                  and frac = "''4''" and trail = "'' / 10''"] rs r0 s1 t1 d1
    by simp
  have rs2: "rating_selectors = [] @ rating_selectors ! 0 # drop 1 rating_selectors"
    by (simp add: rating_selectors_def)
  have s2: "select_one rating_integer (rating_selectors ! 0) = Some (elem_text ''Rated 8/10'')"
    by code_simp
  have t2: "get_text (elem_text ''Rated 8/10'') = ''Rated '' @ ''8'' @ ''/10''"
    by code_simp
  have d2: "(\<forall>c \<in> set ''Rated ''. \<not> py_isdecimal c) \<and> (\<forall>c \<in> set ''8''. py_isdecimal c)
            \<and> \<not> py_isdecimal (hd ''/10'') \<and> hd ''/10'' \<noteq> CHR ''.''"
    by code_simp
  have b: "extract_rating rating_integer = ''8''"
    using main [where pre = "[]" and s = "rating_selectors ! 0"
                  and post = "drop 1 rating_selectors" and soup = rating_integer
                  and e = "elem_text ''Rated 8/10''" and lead = "''Rated ''" and whole = "''8''"
                  and trail = "''/10''"] rs2 s2 t2 d2
    by simp
  have t0: "get_text (elem_text ''7.4 / 10'') = ''7.4 / 10''" by code_simp
  show ?thesis using t0 s0 s1 a s2 b by simp
qed

subsection \<open>Link discovery\<close>

lemma add_movie_link_eq:
  "add_movie_link a acc =
     (if accepted a then set_add (canonical_link (link_href a)) acc else acc)"
  by (simp add: add_movie_link_def accepted_def link_href_def canonical_link_def Let_def)

lemma set_set_add: "set (set_add x xs) = insert x (set xs)"
  by (auto simp: set_add_def)

lemma distinct_set_add: "distinct xs \<Longrightarrow> distinct (set_add x xs)"
  by (simp add: set_add_def)

lemma collect_links_set:
  "set (collect_links ms acc) =
     set acc \<union> (\<lambda>a. canonical_link (link_href a)) ` {a \<in> set ms. accepted a}"
  unfolding collect_links_def
  by (induction ms arbitrary: acc) (auto simp: add_movie_link_eq set_set_add)

lemma collect_links_distinct: "distinct acc \<Longrightarrow> distinct (collect_links ms acc)"
  unfolding collect_links_def
  by (induction ms arbitrary: acc) (simp_all add: add_movie_link_eq distinct_set_add)

lemma links_loop_step:
  "extract_movie_links_loop soup (s # rest) [] =
     (if selector_links soup s \<noteq> [] then selector_links soup s
      else extract_movie_links_loop soup rest [])"
  by (simp add: selector_links_def Let_def collect_links_def)

lemma links_loop_skip:
  "\<forall>p \<in> set pre. selector_links soup p = [] \<Longrightarrow>
   extract_movie_links_loop soup (pre @ rest) [] = extract_movie_links_loop soup rest []"
  by (induction pre) (simp_all add: links_loop_step del: extract_movie_links_loop.simps(2))

lemma selector_links_cong:
  "select soup' p = select soup p \<Longrightarrow> selector_links soup' p = selector_links soup p"
  by (simp add: selector_links_def)

text \<open>
  Claim C2, as amended. The loop of \<open>extract_movie_links\<close> returns exactly the links of the
  first selector, in declaration order, that yields at least one link, that is, that matches
  an anchor whose \<open>href\<close> starts with \<open>/title/\<close>. A selector that matches anchors of
  which none is accepted is passed over like one that matches nothing. The result is the
  same on every document that answers alike up to the chosen selector, whatever the later
  selectors match; when no selector yields a link, the result is empty. This holds for the
  selector lists of \<open>test_claude.py\<close> and of \<open>ver4_Selenium_Based.py\<close>.
\<close>

theorem extract_movie_links_first_yielding_selector:
  "((\<forall>p \<in> set pre. selector_links soup p = []) \<and> selector_links soup s \<noteq> []
      \<and> (\<forall>p \<in> set (pre @ [s]). select soup' p = select soup p)
      \<longrightarrow> extract_movie_links_loop soup' (pre @ s # post) [] = selector_links soup s)
   \<and> ((\<forall>p \<in> set sels. selector_links soup p = []) \<longrightarrow> extract_movie_links_loop soup sels [] = [])
   \<and> extract_movie_links soup = extract_movie_links_loop soup link_selectors []
   \<and> extract_movie_links_ver4 soup = extract_movie_links_loop soup link_selectors_ver4 []"
proof (intro conjI impI)
  assume a: "(\<forall>p \<in> set pre. selector_links soup p = []) \<and> selector_links soup s \<noteq> []
      \<and> (\<forall>p \<in> set (pre @ [s]). select soup' p = select soup p)"
  then have skip: "\<forall>p \<in> set pre. selector_links soup' p = []"
    and hit: "selector_links soup' s = selector_links soup s"
    using selector_links_cong [of soup' _ soup] by auto
  from a have ne: "selector_links soup s \<noteq> []" by blast
  show "extract_movie_links_loop soup' (pre @ s # post) [] = selector_links soup s"
    unfolding links_loop_skip [OF skip] links_loop_step hit using ne by simp
next
  assume "\<forall>p \<in> set sels. selector_links soup p = []"
  then show "extract_movie_links_loop soup sels [] = []"
    using links_loop_skip [of sels soup "[]"] by simp
qed (simp_all add: extract_movie_links_def extract_movie_links_ver4_def)

theorem extract_movie_links_first_yielding_selector_witness:
  "map (selector_links name_then_title) (take 5 link_selectors) = [[], [], [], [], []]
   \<and> selector_links name_then_title (link_selectors ! 5) = [''https://www.imdb.com/title/tt0000001/'']
   \<and> extract_movie_links name_then_title = selector_links name_then_title (link_selectors ! 5)
   \<and> extract_movie_links empty_document = []"
proof -
  note main = extract_movie_links_first_yielding_selector
  have ls: "take 5 link_selectors @ link_selectors ! 5 # [] = link_selectors"
    by (simp add: link_selectors_def)
  have h0: "\<forall>p \<in> set (take 5 link_selectors). selector_links name_then_title p = []"
    by code_simp
  have h1: "selector_links name_then_title (link_selectors ! 5) = [''https://www.imdb.com/title/tt0000001/'']"
    by code_simp
  have a: "extract_movie_links name_then_title = selector_links name_then_title (link_selectors ! 5)"
    using main [where pre = "take 5 link_selectors" and s = "link_selectors ! 5" and post = "[]"
                  and soup = name_then_title and soup' = name_then_title] h0 h1 ls
    by simp
  have e0: "\<forall>p \<in> set link_selectors. selector_links empty_document p = []"
    by code_simp
  have b: "extract_movie_links empty_document = []"
    using main [where soup = empty_document and sels = link_selectors] e0 by simp
  have m: "map (selector_links name_then_title) (take 5 link_selectors) = [[], [], [], [], []]"
    by code_simp
  show ?thesis by (intro conjI m h1 a b)
qed

text \<open>
  Claim C2 as stated fails: on \<open>name_then_title\<close> the first selector of \<open>test_claude.py\<close>
  is the first to match an anchor, it yields no link of its own, and the result is the link
  of the last selector. The same happens in \<open>ver4_Selenium_Based.py\<close> on
  \<open>name_then_title_ver4\<close>, where the second selector is the first to match.
\<close>

theorem first_matching_selector_counterexample:
  "select name_then_title (link_selectors ! 0) = [anchor ''/name/nm0000001/'']
   \<and> selector_links name_then_title (link_selectors ! 0) = []
   \<and> extract_movie_links name_then_title = [''https://www.imdb.com/title/tt0000001/'']
   \<and> select name_then_title_ver4 (link_selectors_ver4 ! 0) = []
   \<and> select name_then_title_ver4 (link_selectors_ver4 ! 1) = [anchor ''/name/nm0000001/'']
   \<and> selector_links name_then_title_ver4 (link_selectors_ver4 ! 1) = []
   \<and> extract_movie_links_ver4 name_then_title_ver4 = [''https://www.imdb.com/title/pilot/'']"
  by code_simp

subsection \<open>Canonical links\<close>

lemma canonical_link_no_query: "CHR ''?'' \<notin> set (canonical_link href)"
  by (auto simp: canonical_link_def split_query_def dest: set_takeWhileD)


lemma split_query_no_query:
  assumes "CHR ''?'' \<notin> set u"
  shows "split_query u = u"
proof -
  have "\<forall>c \<in> set u. c \<noteq> CHR ''?''" using assms by auto
  then show ?thesis by (simp add: split_query_def takeWhile_eq_all_conv)
qed





lemma links_loop_chosen:
  "extract_movie_links_loop soup sels [] = []
   \<or> (\<exists>s \<in> set sels. extract_movie_links_loop soup sels [] = selector_links soup s)"
  by (induction sels) (simp_all add: links_loop_step del: extract_movie_links_loop.simps(2))




subsection \<open>The record gate of the detail fetcher\<close>

lemma decimal_not_N: "py_isdecimal c \<Longrightarrow> c \<noteq> CHR ''N''"
  by (auto simp: py_isdecimal_def cp_def)

lemma rating_match_head:
  assumes "py_isdecimal c"
  shows "\<exists>r. rating_match (c # t) = c # r"
proof -
  have "takeWhile py_isdecimal (c # t) = c # takeWhile py_isdecimal t"
    using assms by simp
  then show ?thesis
    by (auto simp: rating_match_def Let_def split: list.splits)
qed

lemma re_search_rating_head:
  assumes "re_search_rating s = Some v"
  shows "\<exists>c r. v = c # r \<and> py_isdecimal c"
proof -
  define t where "t = dropWhile (\<lambda>c. \<not> py_isdecimal c) s"
  from assms have v: "t \<noteq> []" "v = rating_match t"
    unfolding re_search_rating_def t_def [symmetric] by (cases t; simp)+
  then obtain c t' where ct: "t = c # t'" by (cases t) auto
  have "py_isdecimal c"
    using hd_dropWhile [of "\<lambda>c. \<not> py_isdecimal c" s] v(1) ct unfolding t_def by auto
  with rating_match_head [of c t'] v(2) ct show ?thesis by auto
qed

lemma re_search_rating_not_sentinel: "re_search_rating s \<noteq> Some ''N/A''"
  using re_search_rating_head [of s "''N/A''"] by (auto dest: decimal_not_N)

lemma year_scan_head: "year_scan w s = Some v \<Longrightarrow> \<exists>r. v = CHR ''1'' # r \<or> v = CHR ''2'' # r"
proof (induction w s rule: year_scan.induct)
  case (1 w)
  then show ?case by simp
next
  case (2 w c cs)
  show ?case
  proof (cases "\<not> w \<and> year_at (c # cs)")
    case True
    then have "year_at (c # cs)" by simp
    then have "c = CHR ''1'' \<or> c = CHR ''2''"
      by (cases cs rule: year_at.cases) (auto elim: year_at.elims)
    moreover from True 2(2) have "v = take 4 (c # cs)" by simp
    ultimately show ?thesis by auto
  next
    case False
    with 2 show ?thesis by auto
  qed
qed

lemma re_search_year_not_sentinel: "re_search_year s \<noteq> Some ''N/A''"
  using year_scan_head [of False s "''N/A''"] by (auto simp: re_search_year_def)

lemma rating_strategy_not_sentinel: "rating_strategy soup s \<noteq> Some ''N/A''"
  by (simp add: rating_strategy_def re_search_rating_not_sentinel split: option.splits)

lemma year_strategy_not_sentinel: "year_strategy soup s \<noteq> Some ''N/A''"
  by (simp add: year_strategy_def re_search_year_not_sentinel split: option.splits)

lemma title_strategy_not_sentinel: "title_strategy soup \<noteq> Some ''N/A''"
  by (simp add: title_strategy_def re_search_year_not_sentinel split: option.splits)

lemma rating_loop_sentinel:
  "(extract_rating_loop soup sels = ''N/A'') = (\<forall>s \<in> set sels. rating_strategy soup s = None)"
proof (induction sels)
  case Nil
  then show ?case by simp
next
  case (Cons s sels)
  show ?case
  proof (cases "rating_strategy soup s")
    case None
    with Cons show ?thesis by (simp add: rating_loop_step del: extract_rating_loop.simps(2))
  next
    case (Some v)
    then have "v \<noteq> ''N/A''" using rating_strategy_not_sentinel [of soup s] by auto
    with Some show ?thesis by (simp add: rating_loop_step del: extract_rating_loop.simps(2))
  qed
qed

lemma year_loop_sentinel:
  "(extract_year_loop soup sels = ''N/A'') =
     ((\<forall>s \<in> set sels. year_strategy soup s = None) \<and> title_strategy soup = None)"
proof (induction sels)
  case Nil
  show ?case
  proof (cases "title_strategy soup")
    case None
    then show ?thesis by (simp add: year_from_title_eq)
  next
    case (Some y)
    then have "y \<noteq> ''N/A''" using title_strategy_not_sentinel [of soup] by auto
    with Some show ?thesis by (simp add: year_from_title_eq)
  qed
next
  case (Cons s sels)
  show ?case
  proof (cases "year_strategy soup s")
    case None
    with Cons show ?thesis by (simp add: year_loop_step del: extract_year_loop.simps(2))
  next
    case (Some v)
    then have "v \<noteq> ''N/A''" using year_strategy_not_sentinel [of soup s] by auto
    with Some show ?thesis by (simp add: year_loop_step del: extract_year_loop.simps(2))
  qed
qed

lemma box_office_item_keeps:
  "year (box_office_item item m) = year m \<and> imdb_rating (box_office_item item m) = imdb_rating m"
  by (simp add: box_office_item_def Let_def split: option.splits)

lemma box_office_keeps:
  "year (box_office soup m) = year m \<and> imdb_rating (box_office soup m) = imdb_rating m"
proof -
  have "year (fold box_office_item items m) = year m
        \<and> imdb_rating (fold box_office_item items m) = imdb_rating m" for items
    by (induction items arbitrary: m) (simp_all add: box_office_item_keeps)
  then show ?thesis by (simp add: box_office_def split: option.splits)
qed

lemma get_movie_details_page:
  assumes "get (split_query u) 0 = Page soup"
  shows "get_movie_details get u =
     (if extract_year soup = ''N/A'' \<or> extract_rating soup = ''N/A'' then Inr None
      else Inr (Some (box_office soup
             \<lparr>title = (case find_tag soup ''h1'' of
                         Some e \<Rightarrow> py_strip (get_text e) | None \<Rightarrow> ''Unknown''),
              year = extract_year soup, genres = extract_genres soup,
              imdb_rating = extract_rating soup,
              local_gross = ''N/A'', worldwide_gross = ''N/A'',
              budget = ''N/A'', opening_weekend = ''N/A'',
              url = split_query u, country = None\<rparr>)))"
  using assms by (simp add: get_movie_details_def Let_def)

lemma get_movie_details_Some:
  assumes "get_movie_details get u = Inr (Some m)"
  shows "\<exists>soup. get (split_query u) 0 = Page soup \<and> year m = extract_year soup
           \<and> imdb_rating m = extract_rating soup \<and> year m \<noteq> ''N/A'' \<and> imdb_rating m \<noteq> ''N/A''"
proof (cases "get (split_query u) 0")
  case (Page soup)
  from assms show ?thesis
    unfolding get_movie_details_page [of get u soup, OF Page]
    using Page box_office_keeps by (auto split: if_splits)
next
  case Request_exception
  with assms show ?thesis by (simp add: get_movie_details_def Let_def)
next
  case Other_exception
  with assms show ?thesis by (simp add: get_movie_details_def Let_def)
qed

lemma get_movie_details_ver3_page:
  assumes "get u 0 = Page soup"
  shows "\<exists>m. get_movie_details_ver3 get u = Inr (Some m)
           \<and> v3_imdb_rating m = text_or (find_class soup ''span'' ''sc-7ab21ed2-1 jGRxWM'') ''N/A''
           \<and> (find_class soup ''span'' ''sc-8c396aa2-2 jwaBvf'' = None \<longrightarrow> v3_year m = None)"
proof -
  have keep: "v3_imdb_rating (fold box_office_item_ver3 items m) = v3_imdb_rating m
        \<and> v3_year (fold box_office_item_ver3 items m) = v3_year m" for items m
    by (induction items arbitrary: m)
       (simp_all add: box_office_item_ver3_def Let_def split: option.splits)
  show ?thesis
    using assms keep
    by (auto simp: get_movie_details_ver3_def Let_def split: option.splits)
qed

text \<open>
  Claim C5, as amended. In \<open>test_claude.py\<close> (and \<open>ver4_Selenium_Based.py\<close>, which has the
  same body) \<open>get_movie_details\<close> returns a record only for a fetched page on which both the
  year and the rating resolved: the record carries these two values and neither is \<open>N/A\<close>.
  On a fetched page it returns \<open>None\<close> exactly when the year or the rating is \<open>N/A\<close>, which
  is exactly when every strategy of that field (for the year, the title included) found
  nothing; otherwise it returns a record. \<open>get_movie_details\<close> of \<open>ver3.py\<close> has no such
  gate: for every fetched page it returns a record, whose rating is the placeholder \<open>N/A\<close>
  when the rating element is missing and whose year is left unset when the year element is.
\<close>

theorem detail_record_gate:
  "(get_movie_details get u = Inr (Some m)
      \<longrightarrow> (\<exists>page. get (split_query u) 0 = Page page \<and> year m = extract_year page
             \<and> imdb_rating m = extract_rating page
             \<and> year m \<noteq> ''N/A'' \<and> imdb_rating m \<noteq> ''N/A''))
   \<and> (get (split_query u) 0 = Page soup
      \<longrightarrow> (get_movie_details get u = Inr None)
           = (extract_year soup = ''N/A'' \<or> extract_rating soup = ''N/A''))
   \<and> (get (split_query u) 0 = Page soup \<and> extract_year soup \<noteq> ''N/A'' \<and> extract_rating soup \<noteq> ''N/A''
      \<longrightarrow> (\<exists>r. get_movie_details get u = Inr (Some r)))
   \<and> (extract_rating soup = ''N/A'') = (\<forall>s \<in> set rating_selectors. rating_strategy soup s = None)
   \<and> (extract_year soup = ''N/A'')
       = ((\<forall>s \<in> set year_selectors. year_strategy soup s = None) \<and> title_strategy soup = None)
   \<and> (get u 0 = Page soup
      \<longrightarrow> (\<exists>r. get_movie_details_ver3 get u = Inr (Some r)
             \<and> v3_imdb_rating r = text_or (find_class soup ''span'' ''sc-7ab21ed2-1 jGRxWM'') ''N/A''
             \<and> (find_class soup ''span'' ''sc-8c396aa2-2 jwaBvf'' = None \<longrightarrow> v3_year r = None)))"
proof (intro conjI impI)
  assume "get_movie_details get u = Inr (Some m)"
  then show "\<exists>page. get (split_query u) 0 = Page page \<and> year m = extract_year page
             \<and> imdb_rating m = extract_rating page
             \<and> year m \<noteq> ''N/A'' \<and> imdb_rating m \<noteq> ''N/A''"
    by (rule get_movie_details_Some)
next
  assume "get (split_query u) 0 = Page soup"
  then show "(get_movie_details get u = Inr None)
           = (extract_year soup = ''N/A'' \<or> extract_rating soup = ''N/A'')"
    by (simp add: get_movie_details_page)
next
  assume "get (split_query u) 0 = Page soup \<and> extract_year soup \<noteq> ''N/A'' \<and> extract_rating soup \<noteq> ''N/A''"
  then show "\<exists>r. get_movie_details get u = Inr (Some r)"
    by (simp add: get_movie_details_page)
next
  show "(extract_rating soup = ''N/A'') = (\<forall>s \<in> set rating_selectors. rating_strategy soup s = None)"
    unfolding extract_rating_def by (rule rating_loop_sentinel)
next
  show "(extract_year soup = ''N/A'')
       = ((\<forall>s \<in> set year_selectors. year_strategy soup s = None) \<and> title_strategy soup = None)"
    unfolding extract_year_def by (rule year_loop_sentinel)
next
  assume "get u 0 = Page soup"
  then show "\<exists>r. get_movie_details_ver3 get u = Inr (Some r)
             \<and> v3_imdb_rating r = text_or (find_class soup ''span'' ''sc-7ab21ed2-1 jGRxWM'') ''N/A''
             \<and> (find_class soup ''span'' ''sc-8c396aa2-2 jwaBvf'' = None \<longrightarrow> v3_year r = None)"
    by (rule get_movie_details_ver3_page)
qed

theorem detail_record_gate_witness:
  "get_movie_details (serve detail_page_ok) ''https://www.imdb.com/title/tt0000001/''
     = Inr (Some \<lparr>title = ''Parasite'', year = ''2019'', genres = [], imdb_rating = ''7.4'',
                  local_gross = ''N/A'', worldwide_gross = ''N/A'', budget = ''N/A'',
                  opening_weekend = ''N/A'', url = ''https://www.imdb.com/title/tt0000001/'',
                  country = None\<rparr>)
   \<and> extract_year detail_page_ok \<noteq> ''N/A'' \<and> extract_rating detail_page_ok \<noteq> ''N/A''
   \<and> extract_rating detail_page_unrated = ''N/A''
   \<and> get_movie_details (serve detail_page_unrated) ''https://www.imdb.com/title/tt0000001/'' = Inr None
   \<and> (\<exists>r. get_movie_details_ver3 (serve detail_page_unrated) ''https://www.imdb.com/title/tt0000001/''
            = Inr (Some r) \<and> v3_imdb_rating r = ''N/A'')"
proof -
  let ?u = "''https://www.imdb.com/title/tt0000001/''"
  let ?m = "\<lparr>title = ''Parasite'', year = ''2019'', genres = [], imdb_rating = ''7.4'',
                  local_gross = ''N/A'', worldwide_gross = ''N/A'', budget = ''N/A'',
                  opening_weekend = ''N/A'', url = ''https://www.imdb.com/title/tt0000001/'',
                  country = None\<rparr>"
  note main = detail_record_gate
  have a: "get_movie_details (serve detail_page_ok) ?u = Inr (Some ?m)"
    by code_simp
  have p: "serve detail_page_ok (split_query ?u) 0 = Page detail_page_ok"
    by (simp add: serve_def)
  from main [where get = "serve detail_page_ok" and u = ?u and m = ?m] a
  obtain page where "serve detail_page_ok (split_query ?u) 0 = Page page"
    and "year ?m = extract_year page" and "imdb_rating ?m = extract_rating page"
    and "year ?m \<noteq> ''N/A''" and "imdb_rating ?m \<noteq> ''N/A''"
    by blast
  with p have b: "extract_year detail_page_ok \<noteq> ''N/A'' \<and> extract_rating detail_page_ok \<noteq> ''N/A''"
    by simp
  have q: "serve detail_page_unrated (split_query ?u) 0 = Page detail_page_unrated"
    by (simp add: serve_def)
  have c: "extract_rating detail_page_unrated = ''N/A''"
    by code_simp
  have d: "get_movie_details (serve detail_page_unrated) ?u = Inr None"
    using main [where get = "serve detail_page_unrated" and u = ?u and soup = detail_page_unrated] q c
    by blast
  have q3: "serve detail_page_unrated ?u 0 = Page detail_page_unrated"
    by (simp add: serve_def)
  have f: "text_or (find_class detail_page_unrated ''span'' ''sc-7ab21ed2-1 jGRxWM'') ''N/A'' = ''N/A''"
    by code_simp
  have e: "\<exists>r. get_movie_details_ver3 (serve detail_page_unrated) ?u = Inr (Some r)
            \<and> v3_imdb_rating r = ''N/A''"
    using main [where get = "serve detail_page_unrated" and u = ?u and soup = detail_page_unrated,
                  THEN conjunct2, THEN conjunct2, THEN conjunct2, THEN conjunct2, THEN conjunct2,
                  rule_format, OF q3] f
    by auto
  show ?thesis using a b c d e by blast
qed

text \<open>
  Claim C5 as stated fails in \<open>ver3.py\<close>: for a page with neither year nor rating a record
  is returned, with placeholders.
\<close>

theorem ver3_partial_record_counterexample:
  "get_movie_details_ver3 (serve detail_page_unrated) ''https://www.imdb.com/title/tt0000001/''
     = Inr (Some \<lparr>v3_title = ''Parasite'', v3_year = None, v3_genres = [], v3_budget = None,
                  v3_worldwide_gross = None, v3_opening_weekend = None, v3_domestic_gross = None,
                  v3_imdb_rating = ''N/A'', v3_vote_count = ''N/A'', v3_runtime = ''N/A'',
                  v3_countries = [], v3_directors = None,
                  v3_url = ''https://www.imdb.com/title/tt0000001/''\<rparr>)"
  by code_simp

subsection \<open>The page loop\<close>

lemma page_links_cases:
  "page_links w page =
     (case get_imdb_search_results w (1 + (page - 1) * 50) of
        Inr (Some soup) \<Rightarrow> extract_movie_links soup | _ \<Rightarrow> [])"
  by (simp add: page_links_def)

lemma scrape_pages_stop:
  "\<not> page_continues w page \<Longrightarrow>
   pages_scraped (scrape_pages w ac c (page # rest) st) = pages_scraped st @ [page]
   \<and> processed_urls (scrape_pages w ac c (page # rest) st) = processed_urls st
   \<and> all_movies (scrape_pages w ac c (page # rest) st) = all_movies st"
  by (auto simp: page_continues_def page_links_def Let_def split: sum.splits option.splits)

lemma scrape_pages_go:
  assumes "page_continues w page"
  shows "scrape_pages w ac c (page # rest) st =
     scrape_pages w ac c rest
       (st\<lparr>pages_scraped := pages_scraped st @ [page],
           processed_urls :=
             fold (\<lambda>link. set_add (split_query link))
               (filter (\<lambda>link. split_query link \<notin> set (processed_urls st)) (page_links w page))
               (processed_urls st),
           all_movies :=
             run_executor (detail w) ac c
               (filter (\<lambda>link. split_query link \<notin> set (processed_urls st)) (page_links w page))
               (all_movies st)\<rparr>)"
  using assms
  by (auto simp: page_continues_def page_links_def Let_def split: sum.splits option.splits)

lemma pages_scraped_closed:
  "pages_scraped (scrape_pages w ac c pages st) =
     pages_scraped st @ takeWhile (page_continues w) pages
       @ take 1 (dropWhile (page_continues w) pages)"
proof (induction pages arbitrary: st)
  case Nil
  then show ?case by simp
next
  case (Cons page rest)
  show ?case
  proof (cases "page_continues w page")
    case True
    show ?thesis
      unfolding scrape_pages_go [OF True] Cons.IH using True by simp
  next
    case False
    then show ?thesis using scrape_pages_stop [OF False] by simp
  qed
qed

lemma upto_scan_member:
  "p \<in> set (takeWhile P [a..b] @ take 1 (dropWhile P [a..b]))
     \<longleftrightarrow> a \<le> p \<and> p \<le> b \<and> (\<forall>q. a \<le> q \<and> q < p \<longrightarrow> P q)"
proof (induction a b rule: upto.induct)
  case (1 i j)
  show ?case
  proof (cases "i \<le> j")
    case False
    then show ?thesis by auto
  next
    case True
    then have u: "[i..j] = i # [i + 1..j]" by (simp add: upto_rec1)
    show ?thesis
    proof (cases "P i")
      case pi: True
      have "(\<forall>q. i \<le> q \<and> q < p \<longrightarrow> P q) \<longleftrightarrow> (\<forall>q. i + 1 \<le> q \<and> q < p \<longrightarrow> P q)" if "i < p"
      proof
        assume "\<forall>q. i \<le> q \<and> q < p \<longrightarrow> P q"
        then show "\<forall>q. i + 1 \<le> q \<and> q < p \<longrightarrow> P q" by auto
      next
        assume h: "\<forall>q. i + 1 \<le> q \<and> q < p \<longrightarrow> P q"
        show "\<forall>q. i \<le> q \<and> q < p \<longrightarrow> P q"
        proof (intro allI impI)
          fix q assume "i \<le> q \<and> q < p"
          then show "P q" using h pi by (cases "q = i") auto
        qed
      qed
      then show ?thesis
        using 1 [OF True] True pi unfolding u by (cases "p = i") auto
    next
      case npi: False
      then show ?thesis using True unfolding u by auto
    qed
  qed
qed

lemma extract_movie_links_no_query:
  assumes "u \<in> set (extract_movie_links soup)"
  shows "CHR ''?'' \<notin> set u"
proof -
  from links_loop_chosen [of soup link_selectors] assms
  obtain s where "u \<in> set (selector_links soup s)"
    by (auto simp: extract_movie_links_def)
  then obtain a where "u = canonical_link (link_href a)"
    by (auto simp: selector_links_def collect_links_set)
  then show ?thesis by (simp add: canonical_link_no_query)
qed

lemma extract_movie_links_distinct: "distinct (extract_movie_links soup)"
  using links_loop_chosen [of soup link_selectors]
  by (auto simp: extract_movie_links_def selector_links_def collect_links_distinct)

lemma page_links_no_query: "u \<in> set (page_links w page) \<Longrightarrow> split_query u = u"
  by (auto simp: page_links_def extract_movie_links_no_query split_query_no_query
           split: sum.splits option.splits)

lemma page_links_distinct: "distinct (page_links w page)"
  by (auto simp: page_links_def extract_movie_links_distinct split: sum.splits option.splits)

lemma fold_set_add_new:
  assumes "distinct new" "set new \<inter> set acc = {}" "\<forall>u \<in> set new. split_query u = u"
  shows "fold (\<lambda>link. set_add (split_query link)) new acc = acc @ new"
  using assms
proof (induction new arbitrary: acc)
  case Nil
  then show ?case by simp
next
  case (Cons u new)
  then have "set_add (split_query u) acc = acc @ [u]" by (simp add: set_add_def)
  moreover have "fold (\<lambda>link. set_add (split_query link)) new (acc @ [u]) = (acc @ [u]) @ new"
    using Cons.prems by (intro Cons.IH) auto
  ultimately show ?case by simp
qed

lemma filter_new_links:
  "filter (\<lambda>link. split_query link \<notin> set processed) (page_links w page) = new_links w page processed"
  unfolding new_links_def by (rule filter_cong) (simp_all add: page_links_no_query)

lemma processed_step:
  "fold (\<lambda>link. set_add (split_query link)) (new_links w page processed) processed
     = processed @ new_links w page processed"
  by (rule fold_set_add_new)
     (auto simp: new_links_def page_links_distinct page_links_no_query)

lemma scrape_pages_go':
  assumes "page_continues w page"
  shows "scrape_pages w ac c (page # rest) st =
     scrape_pages w ac c rest
       (st\<lparr>pages_scraped := pages_scraped st @ [page],
           processed_urls := processed_urls st @ new_links w page (processed_urls st),
           all_movies :=
             run_executor (detail w) ac c (new_links w page (processed_urls st)) (all_movies st)\<rparr>)"
  unfolding scrape_pages_go [OF assms] filter_new_links processed_step ..

lemma processed_urls_closed:
  "set (processed_urls (scrape_pages w ac c pages st)) =
     set (processed_urls st) \<union> (\<Union>p \<in> set (takeWhile (page_continues w) pages). set (page_links w p))"
proof (induction pages arbitrary: st)
  case Nil
  then show ?case by simp
next
  case (Cons page rest)
  show ?case
  proof (cases "page_continues w page")
    case True
    show ?thesis
      unfolding scrape_pages_go' [OF True] Cons.IH using True
      by (auto simp: new_links_def)
  next
    case False
    then show ?thesis using scrape_pages_stop [OF False] by simp
  qed
qed

lemma processed_urls_distinct:
  "distinct (processed_urls st) \<Longrightarrow> distinct (processed_urls (scrape_pages w ac c pages st))"
proof (induction pages arbitrary: st)
  case Nil
  then show ?case by simp
next
  case (Cons page rest)
  show ?case
  proof (cases "page_continues w page")
    case True
    show ?thesis
      unfolding scrape_pages_go' [OF True]
      using Cons.prems by (intro Cons.IH) (auto simp: new_links_def page_links_distinct)
  next
    case False
    then show ?thesis using scrape_pages_stop [OF False] Cons.prems by simp
  qed
qed

lemma scan_links:
  "(\<Union>p \<in> set (takeWhile (page_continues w) pages @ take 1 (dropWhile (page_continues w) pages)).
       set (page_links w p))
   = (\<Union>p \<in> set (takeWhile (page_continues w) pages). set (page_links w p))"
proof -
  define d where "d = dropWhile (page_continues w) pages"
  have "d = [] \<or> \<not> page_continues w (hd d)"
    unfolding d_def using hd_dropWhile [of "page_continues w" pages] by blast
  then have "\<forall>p \<in> set (take 1 d). page_links w p = []"
    by (cases d) (auto simp: page_continues_def)
  then have "\<forall>p \<in> set (take 1 (dropWhile (page_continues w) pages)). page_links w p = []"
    unfolding d_def .
  then show ?thesis by auto
qed

lemma collect_result_eq:
  "collect_result c (get_movie_details get link) movies =
     movies @ (case detail_record get c link of None \<Rightarrow> [] | Some r \<Rightarrow> [r])"
  by (simp add: collect_result_def detail_record_def split: sum.splits option.splits)

lemma map_filter_Cons:
  "List.map_filter f (x # xs) = (case f x of None \<Rightarrow> [] | Some r \<Rightarrow> [r]) @ List.map_filter f xs"
  by (simp add: List.map_filter_def split: option.splits)

lemma map_filter_app: "List.map_filter f (xs @ ys) = List.map_filter f xs @ List.map_filter f ys"
  by (simp add: List.map_filter_def)

lemma mset_map_filter:
  "mset (List.map_filter f xs) = image_mset (the \<circ> f) (filter_mset (\<lambda>x. f x \<noteq> None) (mset xs))"
  by (simp add: List.map_filter_def)

lemma length_map_filter:
  "length (List.map_filter f xs) = length xs - length (filter (\<lambda>x. f x = None) xs)"
proof -
  have "length xs = length (filter (\<lambda>x. f x \<noteq> None) xs) + length (filter (\<lambda>x. f x = None) xs)"
    using sum_length_filter_compl [of "\<lambda>x. f x \<noteq> None" xs] by simp
  then show ?thesis by (simp add: List.map_filter_def)
qed

lemma run_executor_eq:
  "run_executor get ac c new movies = movies @ List.map_filter (detail_record get c) (ac new)"
proof -
  have "fold (\<lambda>link. collect_result c (get_movie_details get link)) xs movies
        = movies @ List.map_filter (detail_record get c) xs" for xs
    by (induction xs arbitrary: movies)
       (simp_all add: List.map_filter_simps collect_result_eq split: option.splits)
  then show ?thesis by (simp add: run_executor_def)
qed

lemma all_movies_closed:
  assumes perm: "\<forall>xs. mset (ac xs) = mset xs"
  shows "\<exists>added. processed_urls (scrape_pages w ac c pages st) = processed_urls st @ added
           \<and> mset (all_movies (scrape_pages w ac c pages st))
               = mset (all_movies st) + mset (List.map_filter (detail_record (detail w) c) added)"
proof (induction pages arbitrary: st)
  case Nil
  then show ?case by (simp add: List.map_filter_simps)
next
  case (Cons page rest)
  show ?case
  proof (cases "page_continues w page")
    case False
    then show ?thesis using scrape_pages_stop [OF False, of ac c rest st]
      by (simp add: List.map_filter_simps)
  next
    case True
    let ?new = "new_links w page (processed_urls st)"
    let ?f = "detail_record (detail w) c"
    let ?st' = "st\<lparr>pages_scraped := pages_scraped st @ [page],
           processed_urls := processed_urls st @ ?new,
           all_movies := run_executor (detail w) ac c ?new (all_movies st)\<rparr>"
    from Cons.IH [of ?st'] obtain added where
      p: "processed_urls (scrape_pages w ac c rest ?st') = (processed_urls st @ ?new) @ added"
      and m: "mset (all_movies (scrape_pages w ac c rest ?st'))
              = mset (run_executor (detail w) ac c ?new (all_movies st)) + mset (List.map_filter ?f added)"
      by auto
    have "mset (List.map_filter ?f (ac ?new)) = mset (List.map_filter ?f ?new)"
      using perm by (simp add: mset_map_filter)
    then have "mset (run_executor (detail w) ac c ?new (all_movies st))
               = mset (all_movies st) + mset (List.map_filter ?f ?new)"
      by (simp add: run_executor_eq)
    with m have "mset (all_movies (scrape_pages w ac c rest ?st'))
              = mset (all_movies st) + mset (List.map_filter ?f (?new @ added))"
      by (simp add: map_filter_app)
    with p show ?thesis
      unfolding scrape_pages_go' [OF True] by (intro exI [of _ "?new @ added"]) simp
  qed
qed

lemma get_imdb_search_results_detail [simp]:
  "get_imdb_search_results (w\<lparr>detail := d\<rparr>) i = get_imdb_search_results w i"
  by (simp add: get_imdb_search_results_def)

lemma page_links_detail [simp]: "page_links (w\<lparr>detail := d\<rparr>) = page_links w"
  by (rule ext) (simp add: page_links_def)

lemma page_continues_detail [simp]: "page_continues (w\<lparr>detail := d\<rparr>) = page_continues w"
  by (rule ext) (simp add: page_continues_def)

lemma new_links_detail [simp]: "new_links (w\<lparr>detail := d\<rparr>) = new_links w"
  by (rule ext)+ (simp add: new_links_def)

lemma uncaught_only: "(x :: uncaught) = Uncaught"
  by (cases x) simp

lemma scrape_pages_aborted_stop:
  "\<not> page_continues w page \<Longrightarrow>
   aborted (scrape_pages w ac c (page # rest) st)
     = (aborted st \<or> get_imdb_search_results w (1 + (page - 1) * 50) = Inl Uncaught)"
  using uncaught_only
  by (auto simp: page_continues_def page_links_def Let_def split: sum.splits option.splits)

lemma control_independent_of_details:
  assumes "pages_scraped st' = pages_scraped st" "processed_urls st' = processed_urls st"
    "aborted st' = aborted st"
  shows "pages_scraped (scrape_pages (w\<lparr>detail := d\<rparr>) ac' c' pages st') = pages_scraped (scrape_pages w ac c pages st)
       \<and> processed_urls (scrape_pages (w\<lparr>detail := d\<rparr>) ac' c' pages st') = processed_urls (scrape_pages w ac c pages st)
       \<and> aborted (scrape_pages (w\<lparr>detail := d\<rparr>) ac' c' pages st') = aborted (scrape_pages w ac c pages st)"
  using assms
proof (induction pages arbitrary: st st')
  case Nil
  then show ?case by simp
next
  case (Cons page rest)
  show ?case
  proof (cases "page_continues w page")
    case False
    then have f': "\<not> page_continues (w\<lparr>detail := d\<rparr>) page" by simp
    show ?thesis
      using scrape_pages_stop [OF False, of ac c rest st] scrape_pages_stop [OF f', of ac' c' rest st']
        scrape_pages_aborted_stop [OF False, of ac c rest st]
        scrape_pages_aborted_stop [OF f', of ac' c' rest st'] Cons.prems
      by simp
  next
    case True
    then have t': "page_continues (w\<lparr>detail := d\<rparr>) page" by simp
    show ?thesis
      unfolding scrape_pages_go' [OF True] scrape_pages_go' [OF t']
      using Cons.prems by (intro Cons.IH) simp_all
  qed
qed

lemma takeWhile_prefix_subset: "set (takeWhile P xs) \<subseteq> set (takeWhile P (xs @ ys))"
  by (induction xs) auto

text \<open>
  Claim C3, as amended. The page loop of \<open>scrape_country_films\<close> goes on to the next page,
  up to \<open>max_pages\<close>, exactly when the page was fetched and link discovery returned at least
  one link on it; whether any of these links is new to \<open>processed_urls\<close> plays no part. So
  the pages scraped are the pages from 1 on that continue, and the first page that does not
  (fetch failed, or no link found), if \<open>max_pages\<close> is not reached before.
\<close>

theorem pagination_advances_on_links:
  "pages_scraped (scrape_country_films w ac c max_pages)
     = takeWhile (page_continues w) [1..max_pages]
       @ take 1 (dropWhile (page_continues w) [1..max_pages])
   \<and> (p \<in> set (pages_scraped (scrape_country_films w ac c max_pages))
        \<longleftrightarrow> 1 \<le> p \<and> p \<le> max_pages \<and> (\<forall>q. 1 \<le> q \<and> q < p \<longrightarrow> page_continues w q))
   \<and> (page_continues w q
        \<longleftrightarrow> (\<exists>soup. search_results w (1 + (q - 1) * 50) 0 = Page soup
                    \<and> extract_movie_links soup \<noteq> []))"
proof (intro conjI)
  show a: "pages_scraped (scrape_country_films w ac c max_pages)
     = takeWhile (page_continues w) [1..max_pages]
       @ take 1 (dropWhile (page_continues w) [1..max_pages])"
    by (simp add: scrape_country_films_def pages_scraped_closed initial_state_def)
  show "p \<in> set (pages_scraped (scrape_country_films w ac c max_pages))
        \<longleftrightarrow> 1 \<le> p \<and> p \<le> max_pages \<and> (\<forall>q. 1 \<le> q \<and> q < p \<longrightarrow> page_continues w q)"
    unfolding a by (rule upto_scan_member)
  show "page_continues w q
        \<longleftrightarrow> (\<exists>soup. search_results w (1 + (q - 1) * 50) 0 = Page soup
                    \<and> extract_movie_links soup \<noteq> [])"
    by (auto simp: page_continues_def page_links_def get_imdb_search_results_def
             split: response.splits)
qed

theorem pagination_advances_on_links_witness:
  "page_continues web_repeat 1 \<and> page_continues web_repeat 2
   \<and> set (page_links web_repeat 2) \<subseteq> set (page_links web_repeat 1)
   \<and> 3 \<in> set (pages_scraped (scrape_country_films web_repeat id ''Kazakhstan'' 3))
   \<and> \<not> page_continues web_two_pages 3
   \<and> 4 \<notin> set (pages_scraped (scrape_country_films web_two_pages id ''Kazakhstan'' 5))"
proof -
  note main = pagination_advances_on_links
  have c1: "page_continues web_repeat 1" and c2: "page_continues web_repeat 2"
    by code_simp+
  have s: "set (page_links web_repeat 2) \<subseteq> set (page_links web_repeat 1)"
    by code_simp
  have "\<forall>q. 1 \<le> q \<and> q < 3 \<longrightarrow> page_continues web_repeat q"
  proof (intro allI impI)
    fix q :: int assume "1 \<le> q \<and> q < 3"
    then have "q = 1 \<or> q = 2" by auto
    with c1 c2 show "page_continues web_repeat q" by auto
  qed
  then have a: "3 \<in> set (pages_scraped (scrape_country_films web_repeat id ''Kazakhstan'' 3))"
    using main [where w = web_repeat and ac = id and c = "''Kazakhstan''" and max_pages = 3 and p = 3,
                  THEN conjunct2, THEN conjunct1]
    by simp
  have n3: "\<not> page_continues web_two_pages 3"
    by code_simp
  have b: "4 \<notin> set (pages_scraped (scrape_country_films web_two_pages id ''Kazakhstan'' 5))"
  proof
    assume "4 \<in> set (pages_scraped (scrape_country_films web_two_pages id ''Kazakhstan'' 5))"
    then have "\<forall>q. 1 \<le> q \<and> q < 4 \<longrightarrow> page_continues web_two_pages q"
      using main [where w = web_two_pages and ac = id and c = "''Kazakhstan''" and max_pages = 5 and p = 4,
                    THEN conjunct2, THEN conjunct1]
      by simp
    then have "page_continues web_two_pages 3" by simp
    with n3 show False by simp
  qed
  show ?thesis using c1 c2 s a n3 b by simp
qed

text \<open>
  Claim C3 as stated fails: on \<open>web_repeat\<close> every link of page 2 is already in the
  accumulated set after page 1, and page 3 is scraped all the same.
\<close>

theorem pagination_no_new_links_counterexample:
  "set (page_links web_repeat 2)
     \<subseteq> set (processed_urls (scrape_country_films web_repeat id ''Kazakhstan'' 1))
   \<and> pages_scraped (scrape_country_films web_repeat id ''Kazakhstan'' 3) = [1, 2, 3]"
  by code_simp

subsection \<open>The accumulated link set\<close>

lemma set_add_again: "set_add x (set_add x s) = set_add x s"
  by (simp add: set_add_def)

lemma set_add_member: "x \<in> set s \<Longrightarrow> set_add x s = s"
  by (simp add: set_add_def)

lemma processed_urls_run:
  "set (processed_urls (scrape_country_films w ac c n))
     = (\<Union>p \<in> set (takeWhile (page_continues w) [1..n]). set (page_links w p))"
  by (simp add: scrape_country_films_def processed_urls_closed initial_state_def)

text \<open>
  Claim C4. At the end of a run of \<open>scrape_country_films\<close> (\<open>test_claude.py\<close>) the
  accumulated set \<open>processed_urls\<close> holds every identifier once: it has no repetition, its
  elements are exactly the identifiers discovered on the pages scraped, and so its size is
  the number of distinct identifiers discovered. Adding an identifier that is already in the
  set leaves the set as it is. The set only grows: whatever it holds at some state of the
  loop it still holds after any further pages, and a run over fewer pages ends with a subset
  of what a run over more pages ends with.
\<close>

theorem accumulated_links_distinct:
  "distinct (processed_urls (scrape_country_films w ac c max_pages))
   \<and> set (processed_urls (scrape_country_films w ac c max_pages))
       = (\<Union>p \<in> set (pages_scraped (scrape_country_films w ac c max_pages)). set (page_links w p))
   \<and> length (processed_urls (scrape_country_films w ac c max_pages))
       = card (\<Union>p \<in> set (pages_scraped (scrape_country_films w ac c max_pages)). set (page_links w p))
   \<and> set_add x (set_add x s) = set_add x s
   \<and> (x \<in> set s \<longrightarrow> set_add x s = s)
   \<and> set (set_add x s) = insert x (set s)
   \<and> set (processed_urls st) \<subseteq> set (processed_urls (scrape_pages w ac c pages st))
   \<and> (k \<le> n \<longrightarrow> set (processed_urls (scrape_country_films w ac c k))
                   \<subseteq> set (processed_urls (scrape_country_films w ac c n)))"
proof (intro conjI impI)
  let ?run = "scrape_country_films w ac c max_pages"
  show d: "distinct (processed_urls ?run)"
    by (simp add: scrape_country_films_def processed_urls_distinct initial_state_def)
  show s: "set (processed_urls ?run) = (\<Union>p \<in> set (pages_scraped ?run). set (page_links w p))"
    unfolding processed_urls_run
    by (simp only: scrape_country_films_def pages_scraped_closed initial_state_def
          run_state.simps append_Nil scan_links)
  show "length (processed_urls ?run) = card (\<Union>p \<in> set (pages_scraped ?run). set (page_links w p))"
    using distinct_card [OF d] by (simp only: s)
  show "set_add x (set_add x s) = set_add x s" by (rule set_add_again)
  show "x \<in> set s \<Longrightarrow> set_add x s = s" by (rule set_add_member)
  show "set (set_add x s) = insert x (set s)" by (rule set_set_add)
  show "set (processed_urls st) \<subseteq> set (processed_urls (scrape_pages w ac c pages st))"
    by (simp add: processed_urls_closed)
  assume kn: "k \<le> n"
  show "set (processed_urls (scrape_country_films w ac c k))
          \<subseteq> set (processed_urls (scrape_country_films w ac c n))"
  proof (cases "1 \<le> k")
    case False
    then show ?thesis by (simp add: processed_urls_run)
  next
    case True
    then have "[1..n] = [1..k] @ [k + 1..n]" using kn by (rule upto_split2)
    then have "set (takeWhile (page_continues w) [1..k]) \<subseteq> set (takeWhile (page_continues w) [1..n])"
      using takeWhile_prefix_subset [of "page_continues w" "[1..k]" "[k + 1..n]"] by simp
    then show ?thesis unfolding processed_urls_run by blast
  qed
qed

theorem accumulated_links_distinct_witness:
  "page_links web_two_pages 1
     = [''https://www.imdb.com/title/tt0000001/'', ''https://www.imdb.com/title/tt0000002/'',
        ''https://www.imdb.com/title/tt0000003/'']
   \<and> page_links web_two_pages 2
     = [''https://www.imdb.com/title/tt0000002/'', ''https://www.imdb.com/title/tt0000003/'',
        ''https://www.imdb.com/title/tt0000004/'']
   \<and> processed_urls (scrape_country_films web_two_pages id ''Kazakhstan'' 1)
     = [''https://www.imdb.com/title/tt0000001/'', ''https://www.imdb.com/title/tt0000002/'',
        ''https://www.imdb.com/title/tt0000003/'']
   \<and> processed_urls (scrape_country_films web_two_pages id ''Kazakhstan'' 5)
     = [''https://www.imdb.com/title/tt0000001/'', ''https://www.imdb.com/title/tt0000002/'',
        ''https://www.imdb.com/title/tt0000003/'', ''https://www.imdb.com/title/tt0000004/'']
   \<and> card (\<Union>p \<in> set (pages_scraped (scrape_country_films web_two_pages id ''Kazakhstan'' 5)).
             set (page_links web_two_pages p)) = 4
   \<and> set_add ''b'' [''a'', ''b''] = [''a'', ''b'']
   \<and> set (processed_urls (scrape_country_films web_two_pages id ''Kazakhstan'' 1))
       \<subseteq> set (processed_urls (scrape_country_films web_two_pages id ''Kazakhstan'' 5))"
proof -
  note main = accumulated_links_distinct [where w = web_two_pages and ac = id and c = "''Kazakhstan''"]
  have p1: "page_links web_two_pages 1
     = [''https://www.imdb.com/title/tt0000001/'', ''https://www.imdb.com/title/tt0000002/'',
        ''https://www.imdb.com/title/tt0000003/'']" by code_simp
  have p2: "page_links web_two_pages 2
     = [''https://www.imdb.com/title/tt0000002/'', ''https://www.imdb.com/title/tt0000003/'',
        ''https://www.imdb.com/title/tt0000004/'']" by code_simp
  have r1: "processed_urls (scrape_country_films web_two_pages id ''Kazakhstan'' 1)
     = [''https://www.imdb.com/title/tt0000001/'', ''https://www.imdb.com/title/tt0000002/'',
        ''https://www.imdb.com/title/tt0000003/'']" by code_simp
  have r5: "processed_urls (scrape_country_films web_two_pages id ''Kazakhstan'' 5)
     = [''https://www.imdb.com/title/tt0000001/'', ''https://www.imdb.com/title/tt0000002/'',
        ''https://www.imdb.com/title/tt0000003/'', ''https://www.imdb.com/title/tt0000004/'']" by code_simp
  have lc: "length (processed_urls (scrape_country_films web_two_pages id ''Kazakhstan'' 5))
       = card (\<Union>p \<in> set (pages_scraped (scrape_country_films web_two_pages id ''Kazakhstan'' 5)).
             set (page_links web_two_pages p))"
    by (rule main [where max_pages = 5, THEN conjunct2, THEN conjunct2, THEN conjunct1])
  have l4: "length (processed_urls (scrape_country_films web_two_pages id ''Kazakhstan'' 5)) = 4"
    unfolding r5 by simp
  have c: "card (\<Union>p \<in> set (pages_scraped (scrape_country_films web_two_pages id ''Kazakhstan'' 5)).
             set (page_links web_two_pages p)) = 4"
    by (simp only: lc [symmetric] l4)
  have m: "''b'' \<in> set [''a'', ''b'']" by simp
  have a: "set_add ''b'' [''a'', ''b''] = [''a'', ''b'']"
    by (rule main [where x = "''b''" and s = "[''a'', ''b'']", THEN conjunct2, THEN conjunct2,
          THEN conjunct2, THEN conjunct2, THEN conjunct1, rule_format, OF m])
  have le: "(1::int) \<le> 5" by simp
  have g: "set (processed_urls (scrape_country_films web_two_pages id ''Kazakhstan'' 1))
       \<subseteq> set (processed_urls (scrape_country_films web_two_pages id ''Kazakhstan'' 5))"
    by (rule main [where k = 1 and n = 5, THEN conjunct2, THEN conjunct2, THEN conjunct2,
          THEN conjunct2, THEN conjunct2, THEN conjunct2, THEN conjunct2, rule_format, OF le])
  show ?thesis by (intro conjI p1 p2 r1 r5 c a g)
qed

subsection \<open>The table of records\<close>

lemma all_movies_run:
  assumes "\<forall>xs. mset (ac xs) = mset xs"
  shows "mset (all_movies (scrape_country_films w ac c n))
     = mset (List.map_filter (detail_record (detail w) c) (processed_urls (scrape_country_films w ac c n)))"
  using all_movies_closed [OF assms, of w c "[1..n]" initial_state]
  by (auto simp: scrape_country_films_def initial_state_def)

lemma detail_record_None:
  "(detail_record get c u = None)
     = (get_movie_details get u = Inl Uncaught \<or> get_movie_details get u = Inr None)"
  using uncaught_only
  by (auto simp: detail_record_def split: sum.splits option.splits)

text \<open>
  Claim C6. Take a run of \<open>scrape_country_films\<close> in which the futures complete in any
  order (\<open>as_completed\<close> returns a permutation of the submitted links). Every identifier of
  the accumulated set was dispatched once, so \<open>M\<close> is the size of that set; a detail fetch
  fails when \<open>get_movie_details\<close> raises or returns \<open>None\<close>. Then the table holds, up to
  order, exactly the records of the fetches that did not fail: it has \<open>M - K\<close> rows, and
  the record of every successful fetch is in it whatever happened to the others. The run
  itself does not depend on the detail responses: the pages scraped, the accumulated set and
  whether the run was aborted are the same for any other detail responses.
\<close>

theorem detail_failures_isolated:
  "((\<forall>xs. mset (ac xs) = mset xs) \<longrightarrow>
      mset (all_movies (scrape_country_films w ac c max_pages))
        = mset (List.map_filter (detail_record (detail w) c)
                  (processed_urls (scrape_country_films w ac c max_pages)))
      \<and> length (all_movies (scrape_country_films w ac c max_pages))
        = length (processed_urls (scrape_country_films w ac c max_pages))
          - length (filter (\<lambda>u. detail_record (detail w) c u = None)
                      (processed_urls (scrape_country_films w ac c max_pages)))
      \<and> (u \<in> set (processed_urls (scrape_country_films w ac c max_pages))
           \<and> detail_record (detail w) c u = Some r
          \<longrightarrow> r \<in> set (all_movies (scrape_country_films w ac c max_pages))))
   \<and> (detail_record get c u = None)
       = (get_movie_details get u = Inl Uncaught \<or> get_movie_details get u = Inr None)
   \<and> pages_scraped (scrape_country_films (w\<lparr>detail := d\<rparr>) ac c max_pages)
       = pages_scraped (scrape_country_films w ac c max_pages)
   \<and> processed_urls (scrape_country_films (w\<lparr>detail := d\<rparr>) ac c max_pages)
       = processed_urls (scrape_country_films w ac c max_pages)
   \<and> aborted (scrape_country_films (w\<lparr>detail := d\<rparr>) ac c max_pages)
       = aborted (scrape_country_films w ac c max_pages)"
proof (intro conjI impI)
  let ?run = "scrape_country_films w ac c max_pages"
  let ?f = "detail_record (detail w) c"
  show "(detail_record get c u = None)
       = (get_movie_details get u = Inl Uncaught \<or> get_movie_details get u = Inr None)"
    by (rule detail_record_None)
  have ind: "pages_scraped (scrape_country_films (w\<lparr>detail := d\<rparr>) ac c max_pages) = pages_scraped ?run
       \<and> processed_urls (scrape_country_films (w\<lparr>detail := d\<rparr>) ac c max_pages) = processed_urls ?run
       \<and> aborted (scrape_country_films (w\<lparr>detail := d\<rparr>) ac c max_pages) = aborted ?run"
    unfolding scrape_country_films_def
    by (rule control_independent_of_details) simp_all
  from ind show "pages_scraped (scrape_country_films (w\<lparr>detail := d\<rparr>) ac c max_pages) = pages_scraped ?run"
    by (rule conjunct1)
  from ind show "processed_urls (scrape_country_films (w\<lparr>detail := d\<rparr>) ac c max_pages) = processed_urls ?run"
    by (rule conjunct2 [THEN conjunct1])
  from ind show "aborted (scrape_country_films (w\<lparr>detail := d\<rparr>) ac c max_pages) = aborted ?run"
    by (rule conjunct2 [THEN conjunct2])
next
  let ?run = "scrape_country_films w ac c max_pages"
  let ?f = "detail_record (detail w) c"
  assume perm: "\<forall>xs. mset (ac xs) = mset xs"
  show m: "mset (all_movies ?run) = mset (List.map_filter ?f (processed_urls ?run))"
    using perm by (rule all_movies_run)
  have "length (all_movies ?run) = length (List.map_filter ?f (processed_urls ?run))"
    using m by (rule mset_eq_length)
  then show "length (all_movies ?run)
        = length (processed_urls ?run) - length (filter (\<lambda>u. ?f u = None) (processed_urls ?run))"
    by (simp only: length_map_filter)
  assume a: "u \<in> set (processed_urls ?run) \<and> ?f u = Some r"
  then have "r \<in> set (List.map_filter ?f (processed_urls ?run))"
    by (force simp: List.map_filter_def)
  then show "r \<in> set (all_movies ?run)"
    using m by (metis set_mset_mset)
qed

theorem detail_failures_isolated_witness:
  "(\<forall>xs :: string list. mset (rev xs) = mset xs)
   \<and> length (processed_urls (scrape_country_films web_two_pages rev ''Kazakhstan'' 5)) = 4
   \<and> get_movie_details (detail web_two_pages) ''https://www.imdb.com/title/tt0000002/'' = Inr None
   \<and> get_movie_details (detail web_two_pages) ''https://www.imdb.com/title/tt0000003/'' = Inl Uncaught
   \<and> length (filter (\<lambda>u. detail_record (detail web_two_pages) ''Kazakhstan'' u = None)
         (processed_urls (scrape_country_films web_two_pages rev ''Kazakhstan'' 5))) = 2
   \<and> length (all_movies (scrape_country_films web_two_pages rev ''Kazakhstan'' 5)) = 4 - 2
   \<and> map url (all_movies (scrape_country_films web_two_pages rev ''Kazakhstan'' 5))
       = [''https://www.imdb.com/title/tt0000001/'', ''https://www.imdb.com/title/tt0000004/'']
   \<and> pages_scraped (scrape_country_films web_two_pages rev ''Kazakhstan'' 5) = [1, 2, 3]"
proof -
  let ?run = "scrape_country_films web_two_pages rev ''Kazakhstan'' 5"
  let ?f = "detail_record (detail web_two_pages) ''Kazakhstan''"
  have perm: "\<forall>xs :: string list. mset (rev xs) = mset xs" by simp
  note main = detail_failures_isolated [where w = web_two_pages and ac = rev
      and c = "''Kazakhstan''" and max_pages = 5, THEN conjunct1, THEN mp, OF perm]
  have len: "length (all_movies ?run)
        = length (processed_urls ?run) - length (filter (\<lambda>u. ?f u = None) (processed_urls ?run))"
    by (rule main [THEN conjunct2, THEN conjunct1])
  have m: "length (processed_urls ?run) = 4" by code_simp
  have k: "length (filter (\<lambda>u. ?f u = None) (processed_urls ?run)) = 2" by code_simp
  have b: "get_movie_details (detail web_two_pages) ''https://www.imdb.com/title/tt0000002/'' = Inr None"
    by code_simp
  have c: "get_movie_details (detail web_two_pages) ''https://www.imdb.com/title/tt0000003/'' = Inl Uncaught"
    by code_simp
  have l: "length (all_movies ?run) = 4 - 2"
    by (simp only: len m k)
  have u: "map url (all_movies ?run)
       = [''https://www.imdb.com/title/tt0000001/'', ''https://www.imdb.com/title/tt0000004/'']"
    by code_simp
  have p: "pages_scraped ?run = [1, 2, 3]" by code_simp
  show ?thesis by (intro conjI perm m b c k l u p)
qed

subsection \<open>Retries\<close>

lemma get_movie_details_first_response:
  "get (split_query u) 0 = get' (split_query u) 0 \<Longrightarrow> get_movie_details get u = get_movie_details get' u"
  by (simp add: get_movie_details_def Let_def)

lemma retry_three:
  "retry_from 3 1 f =
     (case f 1 of
        Returns r \<Rightarrow> (Inr r, [])
      | Raises \<Rightarrow>
          (case f 2 of
             Returns r \<Rightarrow> (Inr r, [wait_exponential 1])
           | Raises \<Rightarrow>
               (case f 3 of
                  Returns r \<Rightarrow> (Inr r, [wait_exponential 1, wait_exponential 2])
                | Raises \<Rightarrow> (Inl RetryError, [wait_exponential 1, wait_exponential 2]))))"
  by (simp add: numeral_3_eq_3 numeral_2_eq_2 split: attempt.splits)

lemma wait_exponential_1: "wait_exponential 1 = 4"
  by (simp add: wait_exponential_def)

lemma wait_exponential_2: "wait_exponential 2 = 4"
  by (simp add: wait_exponential_def)

text \<open>
  Claim C7, as amended. Only the classification call is retried. \<open>get_movie_details\<close> and
  \<open>get_imdb_search_results\<close> issue one request: their result is decided by the first
  response alone, and when that is a \<open>RequestException\<close> they return \<open>None\<close> at once (the
  item is logged and dropped). \<open>process_review\<close> is called up to three times: the result is
  that of the first call that does not raise, after a sleep of 4 seconds before each further
  call; when all three calls raise, \<open>RetryError\<close> is raised after two sleeps. What the model
  call would do in a fourth attempt plays no part. A call raises exactly when the review has
  a text other than \<open>n/a\<close> and the model call raises.
\<close>

theorem retry_only_for_classification:
  "(get (split_query u) 0 = Request_exception \<longrightarrow> get_movie_details get u = Inr None)
   \<and> (get (split_query u) 0 = get' (split_query u) 0
        \<longrightarrow> get_movie_details get u = get_movie_details get' u)
   \<and> (search_results w i 0 = Request_exception \<longrightarrow> get_imdb_search_results w i = Inr None)
   \<and> (search_results w i 0 = search_results w' i 0
        \<longrightarrow> get_imdb_search_results w i = get_imdb_search_results w' i)
   \<and> (process_review_body t content (g 1) = Returns r
        \<longrightarrow> process_review g t content = (Inr r, []))
   \<and> (process_review_body t content (g 1) = Raises \<and> process_review_body t content (g 2) = Returns r
        \<longrightarrow> process_review g t content = (Inr r, [4]))
   \<and> (process_review_body t content (g 1) = Raises \<and> process_review_body t content (g 2) = Raises
        \<and> process_review_body t content (g 3) = Returns r
        \<longrightarrow> process_review g t content = (Inr r, [4, 4]))
   \<and> (process_review_body t content (g 1) = Raises \<and> process_review_body t content (g 2) = Raises
        \<and> process_review_body t content (g 3) = Raises
        \<longrightarrow> process_review g t content = (Inl RetryError, [4, 4]))
   \<and> (g 1 = g' 1 \<and> g 2 = g' 2 \<and> g 3 = g' 3
        \<longrightarrow> process_review g t content = process_review g' t content)
   \<and> (process_review_body t content reply = Raises
        \<longleftrightarrow> reply = Generate_raises
            \<and> (\<exists>text. content = Some text \<and> py_lower (py_strip text) \<noteq> ''n/a''))"
proof (intro conjI impI)
  show "get (split_query u) 0 = Request_exception \<Longrightarrow> get_movie_details get u = Inr None"
    by (simp add: get_movie_details_def Let_def)
  show "get (split_query u) 0 = get' (split_query u) 0
        \<Longrightarrow> get_movie_details get u = get_movie_details get' u"
    by (rule get_movie_details_first_response)
  show "search_results w i 0 = Request_exception \<Longrightarrow> get_imdb_search_results w i = Inr None"
    by (simp add: get_imdb_search_results_def)
  show "search_results w i 0 = search_results w' i 0
        \<Longrightarrow> get_imdb_search_results w i = get_imdb_search_results w' i"
    by (simp add: get_imdb_search_results_def)
  show "process_review_body t content (g 1) = Returns r
        \<Longrightarrow> process_review g t content = (Inr r, [])"
    unfolding process_review_def retry_three wait_exponential_1 wait_exponential_2 by simp
  show "process_review_body t content (g 1) = Raises \<and> process_review_body t content (g 2) = Returns r
        \<Longrightarrow> process_review g t content = (Inr r, [4])"
    unfolding process_review_def retry_three wait_exponential_1 wait_exponential_2 by simp
  show "process_review_body t content (g 1) = Raises \<and> process_review_body t content (g 2) = Raises
        \<and> process_review_body t content (g 3) = Returns r
        \<Longrightarrow> process_review g t content = (Inr r, [4, 4])"
    unfolding process_review_def retry_three wait_exponential_1 wait_exponential_2 by simp
  show "process_review_body t content (g 1) = Raises \<and> process_review_body t content (g 2) = Raises
        \<and> process_review_body t content (g 3) = Raises
        \<Longrightarrow> process_review g t content = (Inl RetryError, [4, 4])"
    unfolding process_review_def retry_three wait_exponential_1 wait_exponential_2 by simp
  show "g 1 = g' 1 \<and> g 2 = g' 2 \<and> g 3 = g' 3
        \<Longrightarrow> process_review g t content = process_review g' t content"
    unfolding process_review_def retry_three by (elim conjE) (simp only:)
  show "process_review_body t content reply = Raises
        \<longleftrightarrow> reply = Generate_raises
            \<and> (\<exists>text. content = Some text \<and> py_lower (py_strip text) \<noteq> ''n/a'')"
    by (auto simp: process_review_body_def split: option.splits generate_result.splits)
qed

theorem retry_only_for_classification_witness:
  "flaky (split_query ''https://www.imdb.com/title/tt0000001/'') 0 = Request_exception
   \<and> get_movie_details flaky ''https://www.imdb.com/title/tt0000001/'' = Inr None
   \<and> process_review_body ''Great'' (Some ''Loved the acting.'') (generate_third_time 2) = Raises
   \<and> process_review generate_third_time ''Great'' (Some ''Loved the acting.'')
       = (Inr ([''acting''], [''pacing'']), [4, 4])
   \<and> process_review generate_fourth_time ''Great'' (Some ''Loved the acting.'')
       = (Inl RetryError, [4, 4])
   \<and> process_review generate_fourth_time ''Great'' (Some '' N/A '') = (Inr ([], []), [])"
proof -
  let ?u = "''https://www.imdb.com/title/tt0000001/''"
  let ?t = "''Great''" and ?c = "Some ''Loved the acting.''"
  note main = retry_only_for_classification
  have f0: "flaky (split_query ?u) 0 = Request_exception" by (simp add: flaky_def)
  have a: "get_movie_details flaky ?u = Inr None"
    by (rule main [where get = flaky and u = ?u, THEN conjunct1, THEN mp, OF f0])
  have b3: "process_review_body ?t ?c (generate_third_time 1) = Raises
        \<and> process_review_body ?t ?c (generate_third_time 2) = Raises
        \<and> process_review_body ?t ?c (generate_third_time 3) = Returns ([''acting''], [''pacing''])"
    by code_simp
  have b: "process_review generate_third_time ?t ?c = (Inr ([''acting''], [''pacing'']), [4, 4])"
    by (rule main [where g = generate_third_time and t = ?t and content = ?c,
          THEN conjunct2, THEN conjunct2, THEN conjunct2, THEN conjunct2, THEN conjunct2,
          THEN conjunct2, THEN conjunct1, THEN mp, OF b3])
  have c4: "process_review_body ?t ?c (generate_fourth_time 1) = Raises
        \<and> process_review_body ?t ?c (generate_fourth_time 2) = Raises
        \<and> process_review_body ?t ?c (generate_fourth_time 3) = Raises"
    by code_simp
  have c: "process_review generate_fourth_time ?t ?c = (Inl RetryError, [4, 4])"
    by (rule main [where g = generate_fourth_time and t = ?t and content = ?c,
          THEN conjunct2, THEN conjunct2, THEN conjunct2, THEN conjunct2, THEN conjunct2,
          THEN conjunct2, THEN conjunct2, THEN conjunct1, THEN mp, OF c4])
  have d1: "process_review_body ?t (Some '' N/A '') (generate_fourth_time 1) = Returns ([], [])"
    by code_simp
  have d: "process_review generate_fourth_time ?t (Some '' N/A '') = (Inr ([], []), [])"
    by (rule main [where g = generate_fourth_time and t = ?t and content = "Some '' N/A ''",
          THEN conjunct2, THEN conjunct2, THEN conjunct2, THEN conjunct2, THEN conjunct1,
          THEN mp, OF d1])
  from b3 have b2: "process_review_body ?t ?c (generate_third_time 2) = Raises" by blast
  show ?thesis by (intro conjI f0 a b2 b c d)
qed

text \<open>
  Claim C7 as stated fails: on a network where the first request for a URL times out and
  the second would be answered, the detail page is dropped after its single request, and
  so is the listing page, which ends the run with an empty table.
\<close>

theorem single_attempt_counterexample:
  "flaky ''https://www.imdb.com/title/tt0000001/'' 0 = Request_exception
   \<and> flaky ''https://www.imdb.com/title/tt0000001/'' 1 = Page detail_page_ok
   \<and> get_movie_details (serve detail_page_ok) ''https://www.imdb.com/title/tt0000001/''
       \<noteq> Inr None
   \<and> get_movie_details flaky ''https://www.imdb.com/title/tt0000001/'' = Inr None
   \<and> search_results flaky_web 1 1 = Page listing_ABC
   \<and> get_imdb_search_results flaky_web 1 = Inr None
   \<and> pages_scraped (scrape_country_films flaky_web id ''Kazakhstan'' 5) = [1]
   \<and> all_movies (scrape_country_films flaky_web id ''Kazakhstan'' 5) = []"
proof (intro conjI)
  show "flaky ''https://www.imdb.com/title/tt0000001/'' 0 = Request_exception"
    by (simp add: flaky_def)
  show "flaky ''https://www.imdb.com/title/tt0000001/'' 1 = Page detail_page_ok"
    by (simp add: flaky_def)
  show "search_results flaky_web 1 1 = Page listing_ABC"
    by (simp add: flaky_web_def)
  show "get_imdb_search_results flaky_web 1 = Inr None"
    by (simp add: get_imdb_search_results_def flaky_web_def)
qed code_simp+

subsection \<open>Reviews\<close>

text \<open>
  What holds of \<open>extract_reviews\<close> whenever it returns: at most 25 records, namely those of
  the first 25 articles that parse, in document order, and a count that is not negative. The
  count is returned, and is 0 when the element is missing or has no \<open>str.isdigit\<close>
  character, as long as every such character of the element is a decimal digit.
\<close>

lemma foldl_decimal_nonneg:
  "0 \<le> a \<Longrightarrow> \<forall>c \<in> set s. py_isdecimal c \<Longrightarrow> 0 \<le> foldl (\<lambda>n c. 10 * n + (int (cp c) - 48)) a s"
proof (induction s arbitrary: a)
  case Nil
  then show ?case by simp
next
  case (Cons c s)
  then have "48 \<le> cp c" by (simp add: py_isdecimal_def)
  with Cons.prems have "0 \<le> 10 * a + (int (cp c) - 48)" by simp
  with Cons show ?case by simp
qed

lemma py_int_cases:
  "(\<exists>n. py_int s = Inr n \<and> 0 \<le> n \<and> s \<noteq> [] \<and> (\<forall>c \<in> set s. py_isdecimal c))
   \<or> (py_int s = Inl ValueError \<and> (s = [] \<or> (\<exists>c \<in> set s. \<not> py_isdecimal c)))"
  by (auto simp: py_int_def list_all_iff foldl_decimal_nonneg)

lemma extract_total_reviews_cases:
  "extract_total_reviews soup =
     (case total_reviews_elem soup of
        None \<Rightarrow> Inr 0
      | Some e \<Rightarrow>
          if \<forall>c \<in> set (py_strip (get_text e)). \<not> py_isdigit c then Inr 0
          else py_int (filter py_isdigit (py_strip (get_text e))))"
  by (auto simp: extract_total_reviews_def Let_def filter_empty_conv split: option.splits)

lemma extract_total_reviews_nonneg: "extract_total_reviews soup = Inr n \<Longrightarrow> 0 \<le> n"
  using py_int_cases [of "filter py_isdigit (py_strip (get_text (the (total_reviews_elem soup))))"]
  by (auto simp: extract_total_reviews_cases split: option.splits if_splits)

lemma extract_total_reviews_returns:
  assumes "total_reviews_elem soup = Some e"
    and "\<forall>c \<in> set (py_strip (get_text e)). py_isdigit c \<longrightarrow> py_isdecimal c"
  shows "\<exists>n. extract_total_reviews soup = Inr n"
proof (cases "\<forall>c \<in> set (py_strip (get_text e)). \<not> py_isdigit c")
  case True
  with assms show ?thesis by (simp add: extract_total_reviews_cases)
next
  case False
  let ?d = "filter py_isdigit (py_strip (get_text e))"
  from False have "?d \<noteq> []" by (auto simp: filter_empty_conv)
  moreover from assms(2) have "\<forall>c \<in> set ?d. py_isdecimal c" by auto
  ultimately have "\<exists>n. py_int ?d = Inr n" by (simp add: py_int_def list_all_iff)
  with assms False show ?thesis by (simp add: extract_total_reviews_cases)
qed

lemma fold_add_review:
  "fold (add_review t u) articles acc =
     acc @ List.map_filter (\<lambda>a. case parse_review t u a of Inl _ \<Rightarrow> None | Inr r \<Rightarrow> Some r) articles"
  by (induction articles arbitrary: acc)
     (simp_all add: List.map_filter_simps add_review_def split: sum.splits)

lemma length_map_filter_le: "length (List.map_filter f xs) \<le> length xs"
  by (simp add: List.map_filter_def)

lemma extract_reviews_bound:
  assumes "extract_reviews soup t u = Inr (reviews, k)"
  shows "length reviews \<le> 25
       \<and> reviews = List.map_filter (\<lambda>a. case parse_review t u a of Inl _ \<Rightarrow> None | Inr r \<Rightarrow> Some r)
                      (take 25 (review_articles soup))
       \<and> 0 \<le> k \<and> extract_total_reviews soup = Inr k"
proof -
  from assms have tot: "extract_total_reviews soup = Inr k"
    by (auto simp: extract_reviews_def split: sum.splits if_splits)
  with assms have r: "reviews = List.map_filter (\<lambda>a. case parse_review t u a of Inl _ \<Rightarrow> None | Inr r \<Rightarrow> Some r)
                      (take 25 (review_articles soup))"
    by (auto simp: extract_reviews_def fold_add_review List.map_filter_simps split: if_splits)
  have "length reviews \<le> length (take 25 (review_articles soup))"
    unfolding r by (rule length_map_filter_le)
  then have "length reviews \<le> 25" by simp
  with r tot extract_total_reviews_nonneg [OF tot] show ?thesis by simp
qed

text \<open>
  Claim C10 at a page whose total-reviews element holds a superscript two.
  \<open>str.isdigit\<close> keeps that character, \<open>int\<close> does not convert it, and the
  \<open>ValueError\<close> leaves \<open>extract_total_reviews\<close> and \<open>extract_reviews\<close>: no count and no
  record is returned. With the superscript as its only digit the element has no decimal
  digit at all, and the count is not 0 either.
\<close>

theorem total_reviews_superscript_raises:
  "filter py_isdecimal (py_strip (get_text (elem_text ([superscript_two] @ '' reviews'')))) = []
   \<and> extract_total_reviews page_superscript_only = Inl ValueError
   \<and> extract_reviews page_superscript_only ''Parasite'' ''https://www.imdb.com/title/tt0000001/''
       = Inl ValueError
   \<and> extract_total_reviews page_superscript = Inl ValueError
   \<and> extract_reviews page_superscript ''Parasite'' ''https://www.imdb.com/title/tt0000001/''
       = Inl ValueError"
  by code_simp

end
